theory Spec2Isabelle
  imports Complex_Main
begin

section \<open>Ratio arena: the combat simulation of main.js\<close>

text \<open>
  A shallow embedding of the simulation core of \<^verbatim>\<open>src/main.js\<close>: the classes
  \<^verbatim>\<open>Warrior\<close> and \<^verbatim>\<open>Projectile\<close>, \<^verbatim>\<open>fireProjectile\<close>,
  \<^verbatim>\<open>updateStats\<close>, \<^verbatim>\<open>determineVictor\<close>, \<^verbatim>\<open>stopAnimation\<close> and the frame
  function \<^verbatim>\<open>update\<close>.

  JavaScript numbers are modelled as exact reals: \<^verbatim>\<open>Math.hypot\<close> is the Euclidean
  norm, the decimal constants of the source are the rationals they denote, and no value is
  NaN or infinite. The global arrays \<^verbatim>\<open>warriors\<close> and \<^verbatim>\<open>projectiles\<close> are lists
  that every operation takes and returns; an object of an array is named by its index, so
  that a mutation made through one reference is seen through every other. Drawing, sound
  and the cosmetic hit effects do not feed back into the simulation and are left out.
\<close>

text \<open>
  Where a property hangs on the last bit of a number, the operation is stated a second
  time with its rounding made explicit: the clamp of a warrior and the boundary test of a
  projectile, in the subsection on rounding.
\<close>

subsection \<open>Numbers\<close>

definition hypot :: "real \<Rightarrow> real \<Rightarrow> real" where
  "hypot a b = sqrt (a * a + b * b)"

text \<open>The idiom \<^verbatim>\<open>v || 1\<close> on a number: zero is falsy.\<close>

definition or1 :: "real \<Rightarrow> real" where
  "or1 v = (if v = 0 then 1 else v)"

text \<open>\<^verbatim>\<open>Math.atan2(y, x)\<close>, the angle of the point \<open>(x, y)\<close> in \<open>(-\<pi>, \<pi>]\<close>.\<close>

definition atan2 :: "real \<Rightarrow> real \<Rightarrow> real" where
  "atan2 b a =
     (if 0 < a then arctan (b / a)
      else if a < 0 then (if 0 \<le> b then arctan (b / a) + pi else arctan (b / a) - pi)
      else if 0 < b then pi / 2
      else if b < 0 then - (pi / 2)
      else 0)"

text \<open>The two normalisation loops of lines 316 and 317.\<close>

function norm_down :: "real \<Rightarrow> real" where
  "norm_down a = (if a > pi then norm_down (a - pi * 2) else a)"
  by pat_completeness auto
termination
proof (relation "measure (\<lambda>a. nat \<lceil>a / (pi * 2)\<rceil>)")
  show "wf (measure (\<lambda>a. nat \<lceil>a / (pi * 2)\<rceil>))" by simp
next
  fix a :: real
  assume h: "pi < a"
  have e: "(a - pi * 2) / (pi * 2) = a / (pi * 2) - 1"
    by (simp add: diff_divide_distrib)
  have "0 < a" using h pi_gt_zero by linarith
  then have "0 < a / (pi * 2)" by (intro divide_pos_pos) simp_all
  then have "0 < \<lceil>a / (pi * 2)\<rceil>" by linarith
  moreover have "\<lceil>(a - pi * 2) / (pi * 2)\<rceil> = \<lceil>a / (pi * 2)\<rceil> - 1"
    unfolding e by linarith
  ultimately show "(a - pi * 2, a) \<in> measure (\<lambda>a. nat \<lceil>a / (pi * 2)\<rceil>)"
    by simp
qed

function norm_up :: "real \<Rightarrow> real" where
  "norm_up a = (if a < - pi then norm_up (a + pi * 2) else a)"
  by pat_completeness auto
termination
proof (relation "measure (\<lambda>a. nat \<lceil>- a / (pi * 2)\<rceil>)")
  show "wf (measure (\<lambda>a. nat \<lceil>- a / (pi * 2)\<rceil>))" by simp
next
  fix a :: real
  assume h: "a < - pi"
  define c where "c = - a / (pi * 2)"
  have e: "- (a + pi * 2) / (pi * 2) = c - 1"
    by (simp add: c_def diff_divide_distrib)
  have "0 < - a" using h pi_gt_zero by linarith
  then have "0 < c" unfolding c_def by (intro divide_pos_pos) simp_all
  then have "nat \<lceil>c - 1\<rceil> < nat \<lceil>c\<rceil>" by linarith
  then show "(a + pi * 2, a) \<in> measure (\<lambda>a. nat \<lceil>- a / (pi * 2)\<rceil>)"
    by (simp only: in_measure e c_def [symmetric])
qed

declare norm_down.simps [simp del] norm_up.simps [simp del]

subsection \<open>Data\<close>

datatype wtype = Circle | Square | Triangle

record preferred =
  pmin :: real
  pmax :: real

record config =
  c_speed :: real
  c_hp :: real
  c_damage :: real
  c_range :: real
  c_cooldown :: real
  c_size :: real
  c_preferred :: "preferred option"

text \<open>\<^verbatim>\<open>TYPE_CONFIG\<close>, lines 41 to 73 (colour and label are cosmetic).\<close>

fun TYPE_CONFIG :: "wtype \<Rightarrow> config" where
  "TYPE_CONFIG Circle =
     \<lparr>c_speed = 140, c_hp = 55, c_damage = 9, c_range = 18, c_cooldown = 55 / 100,
      c_size = 10, c_preferred = None\<rparr>"
| "TYPE_CONFIG Square =
     \<lparr>c_speed = 91, c_hp = 130, c_damage = 18, c_range = 22, c_cooldown = 12 / 10,
      c_size = 16, c_preferred = None\<rparr>"
| "TYPE_CONFIG Triangle =
     \<lparr>c_speed = 90, c_hp = 85, c_damage = 7, c_range = 60, c_cooldown = 8 / 10,
      c_size = 14, c_preferred = Some \<lparr>pmin = 40, pmax = 55\<rparr>\<rparr>"

text \<open>
  The arena: \<^verbatim>\<open>CENTER\<close> and \<^verbatim>\<open>ARENA_RADIUS\<close> are computed from the canvas of the
  page, which the script does not fix; they are parameters.
\<close>

record arena =
  CENTER_x :: real
  CENTER_y :: real
  ARENA_RADIUS :: real

record warrior =
  wtype :: wtype
  wx :: real
  wy :: real
  hp :: real
  cooldown :: real
  alive :: bool
  heading :: real
  evadeDirection :: real
  evadeTimer :: real
  lastHitDirX :: real
  lastHitDirY :: real
  wantRetreat :: real

text \<open>\<^verbatim>\<open>this.config\<close> is set once by the constructor to \<^verbatim>\<open>TYPE_CONFIG[type]\<close>.\<close>

definition wconfig :: "warrior \<Rightarrow> config" where
  "wconfig w = TYPE_CONFIG (wtype w)"

text \<open>The constructor; the random initial heading is its last argument.\<close>

definition Warrior :: "wtype \<Rightarrow> real \<Rightarrow> real \<Rightarrow> real \<Rightarrow> warrior" where
  "Warrior t a b h =
     \<lparr>wtype = t, wx = a, wy = b, hp = c_hp (TYPE_CONFIG t), cooldown = 0, alive = True,
      heading = h, evadeDirection = 0, evadeTimer = 0, lastHitDirX = 0, lastHitDirY = 0,
      wantRetreat = 0\<rparr>"

record projectile =
  ownerType :: wtype
  damage :: real
  px :: real
  py :: real
  vx :: real
  vy :: real
  life :: real
  maxLife :: real
  palive :: bool
  radius :: real

text \<open>The two global arrays.\<close>

type_synonym world = "warrior list \<times> projectile list"

subsection \<open>Warrior\<close>

definition distanceTo :: "warrior \<Rightarrow> warrior \<Rightarrow> real" where
  "distanceTo w other = hypot (wx other - wx w) (wy other - wy w)"

text \<open>
  \<^verbatim>\<open>findTarget\<close>: the loop carries \<^verbatim>\<open>closest\<close> together with \<^verbatim>\<open>distance\<close>;
  \<open>None\<close> is the initial pair of \<^verbatim>\<open>null\<close> and positive infinity, below which
  every distance lies. Candidates are paired with their indices, \<open>k = i\<close> being
  \<^verbatim>\<open>enemy === this\<close>.
\<close>

fun findTarget_loop ::
  "nat \<Rightarrow> warrior \<Rightarrow> (nat \<times> warrior) list \<Rightarrow> (nat \<times> real) option \<Rightarrow> (nat \<times> real) option"
where
  "findTarget_loop i self [] best = best"
| "findTarget_loop i self ((k, enemy) # rest) best =
     (if k = i \<or> \<not> alive enemy \<or> wtype enemy = wtype self
      then findTarget_loop i self rest best
      else let d = distanceTo self enemy in
        if (case best of None \<Rightarrow> True | Some (c, distance) \<Rightarrow> d < distance)
        then findTarget_loop i self rest (Some (k, d))
        else findTarget_loop i self rest best)"

definition findTarget :: "nat \<Rightarrow> warrior list \<Rightarrow> nat option" where
  "findTarget i candidates =
     map_option fst (findTarget_loop i (candidates ! i) (enumerate 0 candidates) None)"

definition takeDamage :: "warrior \<Rightarrow> real \<Rightarrow> warrior" where
  "takeDamage w amount =
     (let w1 = w\<lparr>hp := hp w - amount\<rparr>
      in if hp w1 \<le> 0 then w1\<lparr>alive := False\<rparr> else w1)"

definition clampInsideArena :: "arena \<Rightarrow> warrior \<Rightarrow> warrior" where
  "clampInsideArena A w =
     (let dx = wx w - CENTER_x A;
          dy = wy w - CENTER_y A;
          dist = hypot dx dy;
          maxDist = ARENA_RADIUS A - c_size (wconfig w)
      in if dist > maxDist
         then (let scale = maxDist / dist
               in w\<lparr>wx := CENTER_x A + dx * scale, wy := CENTER_y A + dy * scale\<rparr>)
         else w)"

subsection \<open>Projectile construction\<close>

definition Projectile :: "warrior \<Rightarrow> warrior \<Rightarrow> projectile" where
  "Projectile owner target =
     (let dx = wx target - wx owner;
          dy = wy target - wy owner;
          dist = or1 (hypot dx dy);
          speed = 260
      in \<lparr>ownerType = wtype owner, damage = c_damage (wconfig owner),
          px = wx owner, py = wy owner,
          vx = (dx / dist) * speed, vy = (dy / dist) * speed,
          life = 0, maxLife = 35 / 10, palive = True, radius = 4\<rparr>)"

definition fireProjectile :: "warrior \<Rightarrow> warrior \<Rightarrow> projectile list \<Rightarrow> projectile list" where
  "fireProjectile shooter target ps = ps @ [Projectile shooter target]"

subsection \<open>Attacking\<close>

text \<open>
  \<^verbatim>\<open>attemptAttack\<close>, called on the warrior at index \<open>i\<close> with the warrior at index
  \<open>j\<close> as target (\<open>None\<close> is \<^verbatim>\<open>null\<close>). The target is damaged in the array
  before the attacker is read again, as the two references of the source would have it.
\<close>

definition attemptAttack :: "nat \<Rightarrow> nat option \<Rightarrow> world \<Rightarrow> world" where
  "attemptAttack i tgt wd =
     (case tgt of
        None \<Rightarrow> wd
      | Some j \<Rightarrow>
         (let ws = fst wd; ps = snd wd; self = ws ! i; target = ws ! j
          in if \<not> alive target \<or> cooldown self > 0 then wd
             else let distance = distanceTo self target
               in if wtype self = Triangle
                  then (if distance \<le> c_range (wconfig self)
                        then (ws[i := self\<lparr>cooldown := c_cooldown (wconfig self)\<rparr>],
                              fireProjectile self target ps)
                        else wd)
                  else (let minDistance = c_size (wconfig self) + c_size (wconfig target);
                            meleeReach = max (c_range (wconfig self)) minDistance
                        in if distance \<le> meleeReach
                           then (let ws1 = ws[j := takeDamage target (c_damage (wconfig self))];
                                     self1 = (ws1 ! i)\<lparr>cooldown := c_cooldown (wconfig self)\<rparr>;
                                     target1 = ws1 ! j;
                                     self2 =
                                       (if wtype self = Circle
                                        then (let attackDx = wx target1 - wx self1;
                                                  attackDy = wy target1 - wy self1;
                                                  attackDist = or1 (hypot attackDx attackDy)
                                              in self1\<lparr>lastHitDirX := attackDx / attackDist,
                                                       lastHitDirY := attackDy / attackDist,
                                                       wantRetreat :=
                                                         (if wtype target1 = Square
                                                          then 8 / 10 else 4 / 10)\<rparr>)
                                        else self1)
                                 in (ws1[i := self2], ps))
                           else wd)))"

subsection \<open>The update of one warrior\<close>

definition evadeRadius :: real where
  "evadeRadius = 50"

text \<open>The loop of lines 238 to 249, on the pair \<^verbatim>\<open>(evadeX, evadeY)\<close>.\<close>

fun evade_enemies ::
  "nat \<Rightarrow> warrior \<Rightarrow> (nat \<times> warrior) list \<Rightarrow> real \<times> real \<Rightarrow> real \<times> real"
where
  "evade_enemies i self [] ev = ev"
| "evade_enemies i self ((k, enemy) # rest) ev =
     (if \<not> alive enemy \<or> wtype enemy = wtype self \<or> k = i
      then evade_enemies i self rest ev
      else let enemyDx = wx enemy - wx self;
               enemyDy = wy enemy - wy self;
               enemyDist = hypot enemyDx enemyDy
        in if enemyDist < evadeRadius \<and> enemyDist > 0
           then (let evadeStrength = (evadeRadius - enemyDist) / evadeRadius
                 in evade_enemies i self rest
                      (fst ev - (enemyDx / enemyDist) * evadeStrength,
                       snd ev - (enemyDy / enemyDist) * evadeStrength))
           else evade_enemies i self rest ev)"

text \<open>The loop of lines 252 to 263.\<close>

fun evade_projectiles :: "warrior \<Rightarrow> projectile list \<Rightarrow> real \<times> real \<Rightarrow> real \<times> real" where
  "evade_projectiles self [] ev = ev"
| "evade_projectiles self (projectile # rest) ev =
     (if \<not> palive projectile \<or> ownerType projectile = wtype self
      then evade_projectiles self rest ev
      else let projDx = px projectile - wx self;
               projDy = py projectile - wy self;
               projDist = hypot projDx projDy
        in if projDist < evadeRadius \<and> projDist > 0
           then (let evadeStrength = (evadeRadius - projDist) / evadeRadius
                 in evade_projectiles self rest
                      (fst ev - (projDx / projDist) * evadeStrength * (15 / 10),
                       snd ev - (projDy / projDist) * evadeStrength * (15 / 10)))
           else evade_projectiles self rest ev)"

text \<open>
  Lines 231 to 293: the direction of a triangle, from the vector \<open>(dx, dy)\<close> to its
  target, the distance \<open>d\<close> (the \<^verbatim>\<open>dist\<close> of the source) and \<^verbatim>\<open>shouldMove\<close>.
\<close>

definition triangle_direction ::
  "nat \<Rightarrow> warrior \<Rightarrow> world \<Rightarrow> real \<Rightarrow> real \<Rightarrow> real \<Rightarrow> bool \<Rightarrow> real \<times> real"
where
  "triangle_direction i self wd dx dy d shouldMove =
     (let ev = evade_projectiles self (snd wd)
                 (evade_enemies i self (enumerate 0 (fst wd)) (0, 0));
          evadeX = fst ev;
          evadeY = snd ev;
          pref = the (c_preferred (wconfig self));
          dirX = dx / d;
          dirY = dy / d;
          base = (if d < pmin pref then (- dx / d, - dy / d)
                  else if d \<le> pmax pref \<and> shouldMove then (- dirY, dirX)
                  else (dirX, dirY))
      in if \<bar>evadeX\<bar> > 1 / 10 \<or> \<bar>evadeY\<bar> > 1 / 10
         then (let evadeMag = hypot evadeX evadeY;
                   eX = evadeX / evadeMag;
                   eY = evadeY / evadeMag;
                   bX = fst base * (3 / 10) + eX * (7 / 10);
                   bY = snd base * (3 / 10) + eY * (7 / 10);
                   blendMag = hypot bX bY
               in if blendMag > 0 then (bX / blendMag, bY / blendMag) else (bX, bY))
         else base)"

text \<open>Lines 296 to 310: the direction of a circle in its retreat window.\<close>

definition retreat_direction :: "warrior \<Rightarrow> real \<times> real" where
  "retreat_direction self =
     (let backX = - lastHitDirX self;
          backY = - lastHitDirY self;
          sideX = - lastHitDirY self;
          sideY = lastHitDirX self;
          dirX = backX * (6 / 10) + sideX * (4 / 10);
          dirY = backY * (6 / 10) + sideY * (4 / 10);
          mag = or1 (hypot dirX dirY)
      in (dirX / mag, dirY / mag))"

text \<open>Lines 313 to 325: the heading of a triangle turns by at most 3 radians a second.\<close>

definition smooth_heading :: "real \<Rightarrow> real \<Rightarrow> real \<Rightarrow> real" where
  "smooth_heading dt h desiredHeading =
     (let angleDiff = norm_up (norm_down (desiredHeading - h));
          turnSpeed = 3;
          maxTurn = turnSpeed * dt
      in if \<bar>angleDiff\<bar> > maxTurn then h + sgn angleDiff * maxTurn else desiredHeading)"

text \<open>
  Lines 208 to 225. Only a triangle reads \<^verbatim>\<open>config.preferred\<close>, and
  \<^verbatim>\<open>TYPE_CONFIG\<close> gives it to the triangle.
\<close>

definition shouldMove_of :: "warrior \<Rightarrow> warrior \<Rightarrow> real \<Rightarrow> bool" where
  "shouldMove_of self target d =
     (let attackRange = (if wtype self = Triangle then c_range (wconfig self) else 0);
          minDistance = c_size (wconfig self) + c_size (wconfig target)
      in if wtype self = Triangle
         then (let pref = the (c_preferred (wconfig self));
                   threatRadius = pmin pref * (14 / 10)
               in d < threatRadius \<or> d > attackRange)
         else (if wtype self = Circle \<and> wantRetreat self > 0 then True
               else d > minDistance))"

text \<open>Lines 191 to 195: the cooldown and the retreat window run down.\<close>

definition decay_timers :: "real \<Rightarrow> warrior \<Rightarrow> warrior" where
  "decay_timers dt this =
     (let this1 = this\<lparr>cooldown := max 0 (cooldown this - dt)\<rparr>
      in if wantRetreat this1 > 0
         then this1\<lparr>wantRetreat := max 0 (wantRetreat this1 - dt)\<rparr>
         else this1)"

text \<open>
  Lines 201 to 336: the warrior at index \<open>i\<close> turns and moves, its target being the
  warrior at index \<open>j\<close>.
\<close>

definition steer :: "arena \<Rightarrow> real \<Rightarrow> nat \<Rightarrow> nat \<Rightarrow> world \<Rightarrow> warrior" where
  "steer A dt i j wd =
     (let this = fst wd ! i;
          target = fst wd ! j;
          dx = wx target - wx this;
          dy = wy target - wy this;
          dist = or1 (hypot dx dy);
          shouldMove = shouldMove_of this target dist;
          dir0 = (dx / dist, dy / dist);
          dir1 = (if wtype this = Triangle
                  then triangle_direction i this wd dx dy dist shouldMove
                  else dir0);
          dir2 = (if wtype this = Circle \<and> wantRetreat this > 0
                  then retreat_direction this else dir1);
          desiredHeading = atan2 (snd dir2) (fst dir2);
          this3 = this\<lparr>heading :=
                    (if wtype this = Triangle
                     then smooth_heading dt (heading this) desiredHeading
                     else desiredHeading)\<rparr>
      in if shouldMove
         then (let speed = c_speed (wconfig this3) * dt
               in clampInsideArena A
                    (this3\<lparr>wx := wx this3 + fst dir2 * speed,
                            wy := wy this3 + snd dir2 * speed\<rparr>))
         else this3)"

text \<open>\<^verbatim>\<open>Warrior.update\<close> of the warrior at index \<open>i\<close> of \<^verbatim>\<open>everyone\<close>.\<close>

definition Warrior_update :: "arena \<Rightarrow> real \<Rightarrow> nat \<Rightarrow> world \<Rightarrow> world" where
  "Warrior_update A dt i wd =
     (let everyone = fst wd; ps = snd wd; this = everyone ! i
      in if \<not> alive this then wd
         else let everyone1 = everyone[i := decay_timers dt this]
           in case findTarget i everyone1 of
                None \<Rightarrow> (everyone1, ps)
              | Some j \<Rightarrow>
                  attemptAttack i (Some j)
                    (everyone1[i := steer A dt i j (everyone1, ps)], ps))"

subsection \<open>Projectile\<close>

text \<open>
  The loop of lines 376 to 388 changes nothing before its \<^verbatim>\<open>break\<close>: it finds the
  first warrior that is alive, of another type than the owner and within reach.
\<close>

fun first_hit :: "projectile \<Rightarrow> (nat \<times> warrior) list \<Rightarrow> nat option" where
  "first_hit p [] = None"
| "first_hit p ((k, enemy) # rest) =
     (if \<not> alive enemy \<or> wtype enemy = ownerType p then first_hit p rest
      else let dist = hypot (wx enemy - px p) (wy enemy - py p)
        in if dist \<le> c_size (wconfig enemy) + radius p then Some k
           else first_hit p rest)"

definition Projectile_update ::
  "arena \<Rightarrow> real \<Rightarrow> projectile \<Rightarrow> warrior list \<Rightarrow> projectile \<times> warrior list"
where
  "Projectile_update A dt p ws =
     (let p1 = p\<lparr>life := life p + dt\<rparr>
      in if life p1 \<ge> maxLife p1 then (p1\<lparr>palive := False\<rparr>, ws)
         else let p2 = p1\<lparr>px := px p1 + vx p1 * dt, py := py p1 + vy p1 * dt\<rparr>;
                  dx = px p2 - CENTER_x A;
                  dy = py p2 - CENTER_y A;
                  p3 = (if hypot dx dy \<ge> ARENA_RADIUS A then p2\<lparr>palive := False\<rparr> else p2)
           in case first_hit p3 (enumerate 0 ws) of
                None \<Rightarrow> (p3, ws)
              | Some k \<Rightarrow> (p3\<lparr>palive := False\<rparr>, ws[k := takeDamage (ws ! k) (damage p3)]))"

subsection \<open>One frame\<close>

text \<open>Lines 712 to 714: every warrior of the array is updated in turn, in place.\<close>

definition warriors_phase :: "arena \<Rightarrow> real \<Rightarrow> world \<Rightarrow> world" where
  "warriors_phase A dt wd = fold (Warrior_update A dt) [0..<length (fst wd)] wd"

text \<open>Line 715: every projectile of the array is updated in turn.\<close>

fun projectiles_phase ::
  "arena \<Rightarrow> real \<Rightarrow> projectile list \<Rightarrow> warrior list \<Rightarrow> projectile list \<times> warrior list"
where
  "projectiles_phase A dt [] ws = ([], ws)"
| "projectiles_phase A dt (p # ps) ws =
     (let r = Projectile_update A dt p ws;
          rs = projectiles_phase A dt ps (snd r)
      in (fst r # fst rs, snd rs))"

text \<open>Lines 712 to 715, before the dead are dropped.\<close>

definition phases :: "arena \<Rightarrow> real \<Rightarrow> world \<Rightarrow> world" where
  "phases A dt wd =
     (let wd1 = warriors_phase A dt wd;
          r = projectiles_phase A dt (snd wd1) (fst wd1)
      in (snd r, fst r))"

text \<open>Lines 712 to 717.\<close>

definition step :: "arena \<Rightarrow> real \<Rightarrow> world \<Rightarrow> world" where
  "step A dt wd =
     (let wd2 = phases A dt wd
      in (filter alive (fst wd2), filter palive (snd wd2)))"

text \<open>
  The projectile round in detail. \<open>fired\<close> is the array \<^verbatim>\<open>projectiles\<close> when the
  warrior round of lines 712 to 714 is over, \<open>met A dt wd k\<close> is the roster that the
  projectile of index \<open>k\<close> meets in line 715, the projectiles before it having been
  updated, and \<open>flown\<close> is the move of lines 367 and 368.
\<close>

definition flown :: "real \<Rightarrow> projectile \<Rightarrow> projectile" where
  "flown dt q = q\<lparr>px := px q + vx q * dt, py := py q + vy q * dt\<rparr>"

definition fired :: "arena \<Rightarrow> real \<Rightarrow> world \<Rightarrow> projectile list" where
  "fired A dt wd = snd (warriors_phase A dt wd)"

definition met :: "arena \<Rightarrow> real \<Rightarrow> world \<Rightarrow> nat \<Rightarrow> warrior list" where
  "met A dt wd k =
     snd (projectiles_phase A dt (take k (snd (warriors_phase A dt wd)))
            (fst (warriors_phase A dt wd)))"

subsection \<open>The frame function and the outcome\<close>

datatype status = Setup | Battle_running | Paused | All_units_eliminated | Dominate wtype

record sim =
  warriors :: "warrior list"
  projectiles :: "projectile list"
  running :: bool
  lastTimestamp :: real
  winnerType :: "wtype option"
  statusPill :: status

text \<open>\<^verbatim>\<open>updateStats\<close>: the number of living warriors of each type.\<close>

definition updateStats :: "warrior list \<Rightarrow> wtype \<Rightarrow> nat" where
  "updateStats ws t = length (filter (\<lambda>w. alive w \<and> wtype w = t) ws)"

definition livingTypes :: "(wtype \<Rightarrow> nat) \<Rightarrow> wtype list" where
  "livingTypes aliveCounts = filter (\<lambda>t. aliveCounts t > 0) [Circle, Square, Triangle]"

text \<open>\<^verbatim>\<open>determineVictor\<close> returns the new state and its boolean result.\<close>

definition determineVictor :: "(wtype \<Rightarrow> nat) \<Rightarrow> sim \<Rightarrow> sim \<times> bool" where
  "determineVictor aliveCounts s =
     (case livingTypes aliveCounts of
        [] \<Rightarrow> (s\<lparr>statusPill := All_units_eliminated, winnerType := None\<rparr>, True)
      | [t] \<Rightarrow> (s\<lparr>statusPill := Dominate t, winnerType := Some t\<rparr>, True)
      | _ \<Rightarrow> (s, False))"

definition stopAnimation :: "sim \<Rightarrow> sim" where
  "stopAnimation s = s\<lparr>running := False\<rparr>"

text \<open>
  \<^verbatim>\<open>update(timestamp)\<close>. On a real number \<^verbatim>\<open>|| 0\<close> changes nothing.
\<close>

definition update :: "arena \<Rightarrow> real \<Rightarrow> sim \<Rightarrow> sim" where
  "update A timestamp s =
     (if \<not> running s then s
      else let delta = (timestamp - lastTimestamp s) / 1000;
               s1 = s\<lparr>lastTimestamp := timestamp\<rparr>;
               wd = step A delta (warriors s1, projectiles s1);
               s2 = s1\<lparr>projectiles := snd wd, warriors := fst wd\<rparr>;
               aliveCounts = updateStats (warriors s2);
               r = determineVictor aliveCounts s2
        in if snd r then stopAnimation (fst r) else fst r)"

subsection \<open>Seeding\<close>

text \<open>
  \<^verbatim>\<open>randomPoint\<close>, lines 396 to 403; \<open>u\<close> and \<open>v\<close> are the two values of
  \<^verbatim>\<open>Math.random()\<close>, each at least 0 and less than 1.
\<close>

definition randomPoint :: "arena \<Rightarrow> real \<Rightarrow> real \<Rightarrow> real \<times> real" where
  "randomPoint A u v =
     (let theta = u * pi * 2;
          radius = sqrt v * (ARENA_RADIUS A - 50)
      in (CENTER_x A + cos theta * radius, CENTER_y A + sin theta * radius))"

subsection \<open>Rounding\<close>



text \<open>
  \<^verbatim>\<open>clampInsideArena\<close>, lines 139 to 149, and the boundary test of
  \<^verbatim>\<open>Projectile.update\<close>, lines 370 to 372, with every operation rounded by \<open>rd\<close>
  and \<^verbatim>\<open>Math.hypot\<close> computed by \<open>hyp\<close>.
\<close>

definition clampInsideArena_fl ::
  "(real \<Rightarrow> real) \<Rightarrow> (real \<Rightarrow> real \<Rightarrow> real) \<Rightarrow> arena \<Rightarrow> warrior \<Rightarrow> warrior"
where
  "clampInsideArena_fl rd hyp A w =
     (let dx = rd (wx w - CENTER_x A);
          dy = rd (wy w - CENTER_y A);
          dist = hyp dx dy;
          maxDist = rd (ARENA_RADIUS A - c_size (wconfig w))
      in if dist > maxDist
         then (let scale = rd (maxDist / dist)
               in w\<lparr>wx := rd (CENTER_x A + rd (dx * scale)),
                     wy := rd (CENTER_y A + rd (dy * scale))\<rparr>)
         else w)"


text \<open>
  What a frame that computes with rounding may do to a warrior. Its position is written
  in lines 333 and 334 only, and line 336 clamps it at once; its type is never written;
  every other field may take any value.
\<close>

inductive reaches_fl ::
  "(real \<Rightarrow> real) \<Rightarrow> (real \<Rightarrow> real \<Rightarrow> real) \<Rightarrow> arena \<Rightarrow> warrior \<Rightarrow> warrior \<Rightarrow> bool"
  for rd :: "real \<Rightarrow> real" and hyp :: "real \<Rightarrow> real \<Rightarrow> real" and A :: arena
where
  rf_refl: "reaches_fl rd hyp A w w"
| rf_field: "reaches_fl rd hyp A w v \<Longrightarrow> wtype v' = wtype v \<Longrightarrow> wx v' = wx v \<Longrightarrow>
     wy v' = wy v \<Longrightarrow> reaches_fl rd hyp A w v'"
| rf_move: "reaches_fl rd hyp A w v \<Longrightarrow>
     reaches_fl rd hyp A w (clampInsideArena_fl rd hyp A (v\<lparr>wx := x, wy := y\<rparr>))"



subsection \<open>Invariants\<close>

text \<open>A warrior lies inside the circle onto which \<^verbatim>\<open>clampInsideArena\<close> rescales.\<close>

definition in_arena :: "arena \<Rightarrow> warrior \<Rightarrow> bool" where
  "in_arena A w =
     (hypot (wx w - CENTER_x A) (wy w - CENTER_y A) \<le> ARENA_RADIUS A - c_size (wconfig w))"


text \<open>A projectile as its constructor leaves it.\<close>

definition fresh :: "projectile \<Rightarrow> bool" where
  "fresh q = (life q = 0 \<and> maxLife q = 35 / 10 \<and> palive q)"

text \<open>
  The changes that a frame makes to a warrior: \<open>evolves A dt w v\<close> holds when \<open>v\<close>
  comes from \<open>w\<close> by the assignments of \<^verbatim>\<open>Warrior.update\<close>, \<^verbatim>\<open>attemptAttack\<close>
  and \<^verbatim>\<open>takeDamage\<close>, in any number and order.
\<close>

inductive evolves :: "arena \<Rightarrow> real \<Rightarrow> warrior \<Rightarrow> warrior \<Rightarrow> bool"
  for A :: arena and dt :: real
where
  ev_refl: "evolves A dt w w"
| ev_damage: "evolves A dt w v \<Longrightarrow> alive v \<Longrightarrow> evolves A dt w (takeDamage v a)"
| ev_cooldown: "evolves A dt w v \<Longrightarrow> 0 \<le> c \<Longrightarrow> evolves A dt w (v\<lparr>cooldown := c\<rparr>)"
| ev_retreat: "evolves A dt w v \<Longrightarrow> 0 \<le> r \<Longrightarrow> evolves A dt w (v\<lparr>wantRetreat := r\<rparr>)"
| ev_hitdir: "evolves A dt w v \<Longrightarrow> evolves A dt w (v\<lparr>lastHitDirX := a, lastHitDirY := b\<rparr>)"
| ev_heading: "evolves A dt w v \<Longrightarrow> evolves A dt w (v\<lparr>heading := h\<rparr>)"
| ev_move: "evolves A dt w v \<Longrightarrow>
     evolves A dt w (clampInsideArena A
        (v\<lparr>wx := wx v + a * (c_speed (wconfig v) * dt),
            wy := wy v + b * (c_speed (wconfig v) * dt)\<rparr>))"



subsection \<open>Sample states\<close>

text \<open>Two arenas centred at the origin.\<close>

definition arena300 :: arena where
  "arena300 = \<lparr>CENTER_x = 0, CENTER_y = 0, ARENA_RADIUS = 300\<rparr>"

definition arena100 :: arena where
  "arena100 = \<lparr>CENTER_x = 0, CENTER_y = 0, ARENA_RADIUS = 100\<rparr>"

text \<open>A circle after the fourth hit of a square.\<close>

definition fallen :: warrior where
  "fallen = (Warrior Circle 0 0 0)\<lparr>hp := - 17, alive := False\<rparr>"

text \<open>Rosters of two, the second warrior on the x axis.\<close>

definition trio :: "warrior list" where
  "trio = [Warrior Triangle 0 0 0, Warrior Circle 100 0 0]"

definition cooling :: "warrior list" where
  "cooling = [(Warrior Triangle 0 0 0)\<lparr>cooldown := 1 / 2\<rparr>, Warrior Circle 30 0 0]"

definition ready :: "warrior list" where
  "ready = [Warrior Triangle 0 0 0, Warrior Circle 30 0 0]"

definition brawl :: "warrior list" where
  "brawl = [Warrior Circle 0 0 0, Warrior Square 20 0 0]"

definition standoff :: "warrior list" where
  "standoff = [Warrior Triangle 0 0 0, Warrior Square 56 0 0]"

definition marching :: "warrior list" where
  "marching = [Warrior Circle 0 0 0, Warrior Square 100 0 0]"


text \<open>Projectiles: one just fired, one flying out of the small arena, one at its last age.\<close>

definition dart :: projectile where
  "dart = Projectile (Warrior Triangle 0 0 0) (Warrior Circle 100 0 0)"

definition outbound :: projectile where
  "outbound = \<lparr>ownerType = Triangle, damage = 7, px = 75, py = 0, vx = 260, vy = 0,
     life = 1 / 10, maxLife = 35 / 10, palive = True, radius = 4\<rparr>"

definition spent :: projectile where
  "spent = outbound\<lparr>life := 345 / 100\<rparr>"

text \<open>Running simulations.\<close>

definition s_duel :: sim where
  "s_duel = \<lparr>warriors = [Warrior Circle 0 0 0, Warrior Square 30 0 0], projectiles = [],
     running = True, lastTimestamp = 0, winnerType = None, statusPill = Battle_running\<rparr>"

definition lone :: sim where
  "lone = \<lparr>warriors = [Warrior Circle 0 0 0], projectiles = [],
     running = True, lastTimestamp = 0, winnerType = None, statusPill = Battle_running\<rparr>"

text \<open>
  A triangle with a circle in its reach; a circle that steps over the clamp circle on its
  way to a square, and that circle as its step leaves it, before the clamp.
\<close>

definition skirmish :: "warrior list" where
  "skirmish = [Warrior Triangle 0 0 0, Warrior Circle 12 0 0]"




section \<open>Properties\<close>

subsection \<open>Auxiliary facts\<close>

text \<open>
  Facts about distances, about the relation \<open>evolves\<close> and the functions of a frame,
  and about the search for a target, on which the properties below rest.
\<close>

lemma hypot_0_right: "hypot a 0 = \<bar>a\<bar>"
  by (simp add: hypot_def)

lemma hypot_scale: "hypot (a * c) (b * c) = hypot a b * \<bar>c\<bar>"
proof -
  have "a * c * (a * c) + b * c * (b * c) = (a * a + b * b) * (c * c)" by (simp add: algebra_simps)
  then show ?thesis by (simp add: hypot_def real_sqrt_mult)
qed

lemma evolves_update:
  assumes "list_all2 E ws0 ws" "k < length ws \<Longrightarrow> E (ws0 ! k) v"
  shows "list_all2 E ws0 (ws[k := v])"
proof (cases "k < length ws")
  case True
  have "E (ws0 ! i) (ws[k := v] ! i)" if "i < length ws" for i
  proof (cases "i = k")
    case True
    then show ?thesis using assms(2) that by simp
  next
    case False
    then show ?thesis using assms(1) that by (simp add: list_all2_conv_all_nth)
  qed
  then show ?thesis using assms(1) by (simp add: list_all2_conv_all_nth)
next
  case False
  then have "ws[k := v] = ws" by (intro list_update_beyond) simp
  then show ?thesis using assms(1) by simp
qed

lemma evolves_nth: "list_all2 E ws0 ws \<Longrightarrow> k < length ws \<Longrightarrow> E (ws0 ! k) (ws ! k)"
  by (simp add: list_all2_conv_all_nth)

lemma attemptAttack_evolves:
  assumes "list_all2 (evolves A dt) ws0 ws"
  shows "list_all2 (evolves A dt) ws0 (fst (attemptAttack i tgt (ws, ps)))"
proof (cases tgt)
  case None
  then show ?thesis using assms by (simp add: attemptAttack_def)
next
  case (Some j)
  let ?E = "evolves A dt"
  have nth: "\<And>k. k < length ws \<Longrightarrow> ?E (ws0 ! k) (ws ! k)"
    using assms by (rule evolves_nth)
  show ?thesis
  proof (cases "\<not> alive (ws ! j) \<or> cooldown (ws ! i) > 0")
    case True
    then show ?thesis using assms Some by (auto simp: attemptAttack_def Let_def)
  next
    case False
    then have al: "alive (ws ! j)" and cd: "\<not> cooldown (ws ! i) > 0" by auto
    show ?thesis
    proof (cases "wtype (ws ! i) = Triangle")
      case True
      have "list_all2 ?E ws0 (ws[i := (ws ! i)\<lparr>cooldown := c_cooldown (wconfig (ws ! i))\<rparr>])"
        by (rule evolves_update [OF assms], rule ev_cooldown, erule nth)
           (cases "wtype (ws ! i)"; simp add: wconfig_def)
      then show ?thesis using assms Some True al cd
        by (auto simp: attemptAttack_def Let_def)
    next
      case False
      define ws1 where "ws1 = ws[j := takeDamage (ws ! j) (c_damage (wconfig (ws ! i)))]"
      have l1: "list_all2 ?E ws0 ws1" unfolding ws1_def
        by (rule evolves_update [OF assms], rule ev_damage, erule nth, rule al)
      have n1: "\<And>k. k < length ws1 \<Longrightarrow> ?E (ws0 ! k) (ws1 ! k)"
        using l1 by (rule evolves_nth)
      have cc: "0 \<le> c_cooldown (wconfig (ws ! i))"
        by (cases "wtype (ws ! i)"; simp add: wconfig_def)
      have a: "list_all2 ?E ws0 (ws1[i := (ws1 ! i)\<lparr>cooldown := c_cooldown (wconfig (ws ! i))\<rparr>])"
        by (rule evolves_update [OF l1], rule ev_cooldown, erule n1, rule cc)
      have b: "list_all2 ?E ws0 (ws1[i := (ws1 ! i)\<lparr>cooldown := c_cooldown (wconfig (ws ! i)),
                   lastHitDirX := x, lastHitDirY := y, wantRetreat := r\<rparr>])" if "0 \<le> r" for x y r
        by (rule evolves_update [OF l1], rule ev_retreat, rule ev_hitdir, rule ev_cooldown,
            erule n1, rule cc, rule that)
      show ?thesis using assms Some False al cd a b
        by (auto simp: attemptAttack_def Let_def ws1_def)
    qed
  qed
qed


lemma decay_timers_evolves:
  assumes "evolves A dt w v" shows "evolves A dt w (decay_timers dt v)"
proof -
  have 1: "evolves A dt w (v\<lparr>cooldown := max 0 (cooldown v - dt)\<rparr>)"
    by (rule ev_cooldown [OF assms]) simp
  have 2: "evolves A dt w (v\<lparr>cooldown := max 0 (cooldown v - dt),
       wantRetreat := max 0 (wantRetreat v - dt)\<rparr>)"
    by (rule ev_retreat [OF 1]) simp
  show ?thesis using 1 2 by (simp add: decay_timers_def Let_def)
qed

lemma steer_evolves:
  assumes "evolves A dt w (ws ! i)" shows "evolves A dt w (steer A dt i j (ws, ps))"
proof -
  have h: "evolves A dt w ((ws ! i)\<lparr>heading := h\<rparr>)" for h
    by (rule ev_heading [OF assms])
  have m: "evolves A dt w (clampInsideArena A
     ((ws ! i)\<lparr>heading := h, wx := wx (ws ! i) + a * (c_speed (wconfig (ws ! i)) * dt),
        wy := wy (ws ! i) + b * (c_speed (wconfig (ws ! i)) * dt)\<rparr>))" for h a b
    using ev_move [OF h, where a = a and b = b] by (simp add: wconfig_def)
  show ?thesis using h m by (simp add: steer_def Let_def wconfig_def)
qed

lemma Warrior_update_evolves:
  assumes "list_all2 (evolves A dt) ws0 ws"
  shows "list_all2 (evolves A dt) ws0 (fst (Warrior_update A dt i (ws, ps)))"
proof (cases "alive (ws ! i)")
  case False
  then show ?thesis using assms by (simp add: Warrior_update_def)
next
  case True
  let ?E = "evolves A dt"
  define ws1 where "ws1 = ws[i := decay_timers dt (ws ! i)]"
  have l1: "list_all2 ?E ws0 ws1" unfolding ws1_def
    by (rule evolves_update [OF assms], rule decay_timers_evolves, rule evolves_nth [OF assms])
  have "list_all2 ?E ws0 (ws1[i := steer A dt i j (ws1, ps)])" for j
    by (rule evolves_update [OF l1], rule steer_evolves, rule evolves_nth [OF l1])
  then have "list_all2 ?E ws0 (fst (attemptAttack i (Some j) (ws1[i := steer A dt i j (ws1, ps)], ps)))" for j
    by (rule attemptAttack_evolves)
  then show ?thesis using True l1
    by (simp add: Warrior_update_def Let_def ws1_def split: option.split)
qed

lemma first_hit_Some:
  "first_hit p (enumerate n ws) = Some k \<Longrightarrow>
     n \<le> k \<and> k < n + length ws \<and> alive (ws ! (k - n)) \<and> wtype (ws ! (k - n)) \<noteq> ownerType p \<and>
     hypot (wx (ws ! (k - n)) - px p) (wy (ws ! (k - n)) - py p)
       \<le> c_size (wconfig (ws ! (k - n))) + radius p"
proof (induction ws arbitrary: n)
  case Nil
  then show ?case by simp
next
  case (Cons w ws)
  show ?case
  proof (cases "first_hit p (enumerate (Suc n) ws) = Some k \<and> k \<noteq> n")
    case True
    then have "Suc n \<le> k \<and> k < Suc n + length ws \<and> alive (ws ! (k - Suc n)) \<and>
       wtype (ws ! (k - Suc n)) \<noteq> ownerType p \<and>
       hypot (wx (ws ! (k - Suc n)) - px p) (wy (ws ! (k - Suc n)) - py p)
         \<le> c_size (wconfig (ws ! (k - Suc n))) + radius p"
      using Cons.IH [of "Suc n"] by blast
    moreover from this have "(w # ws) ! (k - n) = ws ! (k - Suc n)"
      by (simp add: nth_Cons')
    ultimately show ?thesis by simp
  next
    case False
    then have "k = n \<and> alive w \<and> wtype w \<noteq> ownerType p \<and>
       hypot (wx w - px p) (wy w - py p) \<le> c_size (wconfig w) + radius p"
      using Cons.prems Cons.IH [of "Suc n"]
      by (auto simp: Let_def split: if_splits)
    then show ?thesis by simp
  qed
qed

lemma Projectile_update_evolves:
  assumes "list_all2 (evolves A dt) ws0 ws"
  shows "list_all2 (evolves A dt) ws0 (snd (Projectile_update A dt p ws))"
proof -
  have "list_all2 (evolves A dt) ws0 (ws[k := takeDamage (ws ! k) a])"
    if "first_hit q (enumerate 0 ws) = Some k" for q k a
  proof -
    from first_hit_Some [OF that] have "k < length ws" "alive (ws ! k)" by simp_all
    then show ?thesis
      by (intro evolves_update [OF assms] ev_damage evolves_nth [OF assms])
  qed
  then show ?thesis using assms
    by (simp add: Projectile_update_def Let_def split: option.split)
qed

lemma projectiles_phase_evolves:
  "list_all2 (evolves A dt) ws0 ws \<Longrightarrow>
   list_all2 (evolves A dt) ws0 (snd (projectiles_phase A dt ps ws))"
  by (induction ps arbitrary: ws) (simp_all add: Let_def Projectile_update_evolves)

lemma fold_Warrior_update_evolves:
  "list_all2 (evolves A dt) ws0 (fst wd) \<Longrightarrow>
   list_all2 (evolves A dt) ws0 (fst (fold (Warrior_update A dt) is wd))"
proof (induction "is" arbitrary: wd)
  case Nil
  then show ?case by simp
next
  case (Cons i "is")
  have "list_all2 (evolves A dt) ws0 (fst (Warrior_update A dt i wd))"
    using Warrior_update_evolves [OF Cons.prems, of i "snd wd"] by simp
  then show ?case using Cons.IH by simp
qed

lemma phases_evolves: "list_all2 (evolves A dt) ws (fst (phases A dt (ws, ps)))"
proof -
  have "list_all2 (evolves A dt) ws ws" by (simp add: list_all2_conv_all_nth ev_refl)
  then have "list_all2 (evolves A dt) ws (fst (warriors_phase A dt (ws, ps)))"
    unfolding warriors_phase_def by (intro fold_Warrior_update_evolves) simp
  then show ?thesis
    by (simp add: phases_def Let_def projectiles_phase_evolves)
qed


lemma clamp_fields [simp]:
  "wtype (clampInsideArena A w) = wtype w"
  "hp (clampInsideArena A w) = hp w"
  "alive (clampInsideArena A w) = alive w"
  "cooldown (clampInsideArena A w) = cooldown w"
  "wantRetreat (clampInsideArena A w) = wantRetreat w"
  by (simp_all add: clampInsideArena_def Let_def)

lemma takeDamage_fields [simp]:
  "wtype (takeDamage w a) = wtype w"
  "wx (takeDamage w a) = wx w"
  "wy (takeDamage w a) = wy w"
  "cooldown (takeDamage w a) = cooldown w"
  "wantRetreat (takeDamage w a) = wantRetreat w"
  "hp (takeDamage w a) = hp w - a"
  "alive (takeDamage w a) = (alive w \<and> a < hp w)"
  by (auto simp: takeDamage_def Let_def)

lemma size_le_16: "c_size (wconfig w) \<le> 16"
  by (cases "wtype w"; simp add: wconfig_def)

lemma clamp_in_arena:
  assumes "16 \<le> ARENA_RADIUS A" shows "in_arena A (clampInsideArena A w)"
proof -
  define dx where "dx = wx w - CENTER_x A"
  define dy where "dy = wy w - CENTER_y A"
  define m where "m = ARENA_RADIUS A - c_size (wconfig w)"
  have m0: "0 \<le> m" using assms size_le_16 [of w] by (simp add: m_def)
  show ?thesis
  proof (cases "hypot dx dy > m")
    case False
    then show ?thesis
      by (simp add: in_arena_def clampInsideArena_def Let_def dx_def dy_def m_def wconfig_def)
  next
    case True
    then have pos: "0 < hypot dx dy" using m0 by linarith
    define c where "c = m / hypot dx dy"
    have "0 \<le> c" and "hypot dx dy * c = m" using pos m0 by (simp_all add: c_def)
    then have "hypot (dx * c) (dy * c) = m" by (simp add: hypot_scale)
    then have "hypot (dx * (m / hypot dx dy)) (dy * (m / hypot dx dy)) = m"
      by (simp only: c_def)
    then show ?thesis using True
      by (simp add: in_arena_def clampInsideArena_def Let_def dx_def dy_def m_def wconfig_def)
  qed
qed

lemma evolves_alive_hp:
  "evolves A dt w v \<Longrightarrow> alive w = (0 < hp w) \<Longrightarrow> alive v = (0 < hp v)"
  by (induction rule: evolves.induct) auto

lemma evolves_timers:
  "evolves A dt w v \<Longrightarrow> 0 \<le> cooldown w \<and> 0 \<le> wantRetreat w \<Longrightarrow>
     0 \<le> cooldown v \<and> 0 \<le> wantRetreat v"
  by (induction rule: evolves.induct) auto

lemma evolves_in_arena:
  "evolves A dt w v \<Longrightarrow> 16 \<le> ARENA_RADIUS A \<Longrightarrow> in_arena A w \<Longrightarrow> in_arena A v"
proof (induction rule: evolves.induct)
  case (ev_move w v a b)
  then show ?case by (simp add: clamp_in_arena)
qed (simp_all add: in_arena_def wconfig_def)

lemma list_all2_invariant:
  assumes "list_all2 E ws ws'" "\<forall>w\<in>set ws. P w" "\<And>w v. E w v \<Longrightarrow> P w \<Longrightarrow> P v"
  shows "\<forall>v\<in>set ws'. P v"
proof
  fix v assume "v \<in> set ws'"
  then obtain k where k: "k < length ws'" "v = ws' ! k" by (auto simp: in_set_conv_nth)
  then have "E (ws ! k) v" "ws ! k \<in> set ws"
    using assms(1) by (simp_all add: list_all2_conv_all_nth)
  then show "P v" using assms(2,3) by blast
qed

lemma warriors_update:
  "warriors (update A t s) =
     (if running s
      then filter alive (fst (phases A ((t - lastTimestamp s) / 1000) (warriors s, projectiles s)))
      else warriors s)"
  by (simp add: update_def Let_def step_def determineVictor_def stopAnimation_def
      split: list.split)


lemma update_invariant:
  assumes "\<forall>w\<in>set (warriors s). P w"
    and "\<And>dt w v. evolves A dt w v \<Longrightarrow> P w \<Longrightarrow> P v"
  shows "\<forall>v\<in>set (warriors (update A t s)). P v"
proof (cases "running s")
  case False
  then show ?thesis using assms(1) by (simp add: warriors_update)
next
  case True
  have "\<forall>v\<in>set (fst (phases A ((t - lastTimestamp s) / 1000) (warriors s, projectiles s))). P v"
    by (rule list_all2_invariant [OF phases_evolves assms(1)]) (rule assms(2))
  then show ?thesis using True by (simp add: warriors_update)
qed

lemma findTarget_loop_Some:
  "findTarget_loop i self (enumerate n ws) best = Some (j, d) \<Longrightarrow>
     best = Some (j, d) \<or>
     (n \<le> j \<and> j < n + length ws \<and> j \<noteq> i \<and> alive (ws ! (j - n)) \<and>
      wtype (ws ! (j - n)) \<noteq> wtype self \<and> d = distanceTo self (ws ! (j - n)))"
proof (induction ws arbitrary: n best)
  case Nil
  then show ?case by simp
next
  case (Cons w ws)
  let ?skip = "n = i \<or> \<not> alive w \<or> wtype w = wtype self"
  let ?better = "case best of None \<Rightarrow> True | Some (c, distance) \<Rightarrow> distanceTo self w < distance"
  have shift: "(w # ws) ! (j - n) = ws ! (j - Suc n)" if "Suc n \<le> j"
    using that by (simp add: nth_Cons')
  show ?case
  proof (cases "\<not> ?skip \<and> ?better")
    case True
    then have "findTarget_loop i self (enumerate (Suc n) ws) (Some (n, distanceTo self w)) = Some (j, d)"
      using Cons.prems by (simp add: Let_def)
    from Cons.IH [OF this] show ?thesis using True shift by auto
  next
    case False
    then have "findTarget_loop i self (enumerate (Suc n) ws) best = Some (j, d)"
      using Cons.prems by (auto simp: Let_def split: if_splits)
    from Cons.IH [OF this] show ?thesis using shift by auto
  qed
qed

lemma findTarget_Some:
  assumes "findTarget i ws = Some j"
  shows "j < length ws \<and> j \<noteq> i \<and> alive (ws ! j) \<and> wtype (ws ! j) \<noteq> wtype (ws ! i)"
proof -
  from assms obtain d where
    "findTarget_loop i (ws ! i) (enumerate 0 ws) None = Some (j, d)"
    by (auto simp: findTarget_def)
  from findTarget_loop_Some [OF this] show ?thesis by simp
qed

lemma Projectile_update_nth:
  assumes "k < length ws" "\<not> alive (ws ! k) \<or> wtype (ws ! k) = ownerType p"
  shows "snd (Projectile_update A dt p ws) ! k = ws ! k"
proof -
  have "ws[j := v] ! k = ws ! k"
    if "first_hit q (enumerate 0 ws) = Some j" "ownerType q = ownerType p" for q j v
  proof -
    from first_hit_Some [OF that(1)] have "j \<noteq> k" using assms(2) that(2) by auto
    then show ?thesis by simp
  qed
  then show ?thesis
    by (simp add: Projectile_update_def Let_def split: option.split)
qed

lemma Projectile_update_ownerType: "ownerType (fst (Projectile_update A dt p ws)) = ownerType p"
  by (simp add: Projectile_update_def Let_def split: option.split)


lemma Projectile_update_length: "length (snd (Projectile_update A dt p ws)) = length ws"
  by (simp add: Projectile_update_def Let_def split: option.split)

lemma projectiles_phase_nth:
  "k < length ws \<Longrightarrow> \<forall>q\<in>set ps. ownerType q = wtype (ws ! k) \<Longrightarrow>
     snd (projectiles_phase A dt ps ws) ! k = ws ! k"
proof (induction ps arbitrary: ws)
  case Nil
  then show ?case by simp
next
  case (Cons p ps)
  let ?ws1 = "snd (Projectile_update A dt p ws)"
  have 1: "?ws1 ! k = ws ! k"
    using Cons.prems by (intro Projectile_update_nth) simp_all
  have "snd (projectiles_phase A dt ps ?ws1) ! k = ?ws1 ! k"
    using Cons.prems 1 by (intro Cons.IH) (simp_all add: Projectile_update_length)
  then show ?case using 1 by (simp add: Let_def)
qed

lemma first_hit_cong:
  "ownerType q = ownerType p \<Longrightarrow> px q = px p \<Longrightarrow> py q = py p \<Longrightarrow> radius q = radius p \<Longrightarrow>
     first_hit q xs = first_hit p xs"
  by (induction xs) (auto simp: Let_def)

lemma running_update:
  "running s \<Longrightarrow>
     running (update A t s) = (1 < length (livingTypes (updateStats (warriors (update A t s)))))"
  by (auto simp: update_def Let_def step_def determineVictor_def stopAnimation_def
      split: list.split)

lemma update_not_running: "\<not> running s \<Longrightarrow> update A t s = s"
  by (simp add: update_def)

lemma fold_update_not_running: "\<not> running s \<Longrightarrow> fold (update A) ts s = s"
  by (induction ts) (simp_all add: update_not_running)

lemma lone_update: "warriors (update arena300 16 lone) = [Warrior Circle 0 0 0]"
  by (simp add: warriors_update lone_def phases_def warriors_phase_def Warrior_update_def
      decay_timers_def findTarget_def Warrior_def Let_def)

lemma winner_update:
  "running s \<Longrightarrow>
     winnerType (update A t s) =
       (case livingTypes (updateStats (warriors (update A t s))) of
          [] \<Rightarrow> None | [ty] \<Rightarrow> Some ty | _ \<Rightarrow> winnerType s)"
  by (auto simp: update_def Let_def step_def determineVictor_def stopAnimation_def
      split: list.split)

lemma outcome_update:
  "running s \<Longrightarrow>
     statusPill (update A t s) =
       (case livingTypes (updateStats (warriors (update A t s))) of
          [] \<Rightarrow> All_units_eliminated | [ty] \<Rightarrow> Dominate ty | _ \<Rightarrow> statusPill s)"
  by (auto simp: update_def Let_def step_def determineVictor_def stopAnimation_def
      split: list.split)

lemma clamp_on_circle:
  assumes "16 \<le> ARENA_RADIUS A"
    and "ARENA_RADIUS A - c_size (wconfig w) < hypot (wx w - CENTER_x A) (wy w - CENTER_y A)"
  shows "hypot (wx (clampInsideArena A w) - CENTER_x A) (wy (clampInsideArena A w) - CENTER_y A)
           = ARENA_RADIUS A - c_size (wconfig w)"
proof -
  define dx where "dx = wx w - CENTER_x A"
  define dy where "dy = wy w - CENTER_y A"
  define m where "m = ARENA_RADIUS A - c_size (wconfig w)"
  have m0: "0 \<le> m" using assms(1) size_le_16 [of w] by (simp add: m_def)
  have gt: "m < hypot dx dy" using assms(2) by (simp add: m_def dx_def dy_def)
  then have pos: "0 < hypot dx dy" using m0 by linarith
  define c where "c = m / hypot dx dy"
  have "0 \<le> c" and "hypot dx dy * c = m" using pos m0 by (simp_all add: c_def)
  then have "hypot (dx * c) (dy * c) = m" by (simp add: hypot_scale)
  then have "hypot (dx * (m / hypot dx dy)) (dy * (m / hypot dx dy)) = m"
    by (simp only: c_def)
  then show ?thesis using gt
    by (simp add: clampInsideArena_def Let_def dx_def dy_def m_def wconfig_def)
qed



lemma hypot_cos_sin: "hypot (cos a * r) (sin a * r) = \<bar>r\<bar>"
proof -
  have "cos a * r * (cos a * r) + sin a * r * (sin a * r) =
      (cos a * cos a + sin a * sin a) * (r * r)"
    by algebra
  also have "\<dots> = r * r" by (simp only: sin_cos_squared_add3 mult_1)
  finally show ?thesis by (simp add: hypot_def)
qed

lemma randomPoint_in_arena:
  assumes "50 \<le> ARENA_RADIUS A" "0 \<le> v" "v < 1"
  shows "in_arena A (Warrior ty (fst (randomPoint A u v)) (snd (randomPoint A u v)) h)"
proof -
  have "sqrt v \<le> 1" using assms(2,3) by simp
  then have "sqrt v * (ARENA_RADIUS A - 50) \<le> 1 * (ARENA_RADIUS A - 50)"
    using assms(1) by (intro mult_right_mono) simp_all
  moreover have "0 \<le> sqrt v * (ARENA_RADIUS A - 50)" using assms(1,2) by simp
  moreover have "c_size (TYPE_CONFIG ty) \<le> 50" by (cases ty) simp_all
  ultimately show ?thesis
    by (simp add: in_arena_def randomPoint_def Let_def Warrior_def wconfig_def hypot_cos_sin)
qed

lemmas eval_defs = Warrior_update_def decay_timers_def findTarget_def steer_def shouldMove_of_def
  attemptAttack_def distanceTo_def takeDamage_def clampInsideArena_def wconfig_def
  enumerate_eq_zip upt_rec or1_def hypot_0_right Let_def fireProjectile_def Projectile_def
  triangle_direction_def retreat_direction_def evadeRadius_def

lemma fresh_Projectile: "fresh (Projectile shooter target)"
  by (simp add: fresh_def Projectile_def Let_def)

lemma attemptAttack_projectiles:
  "\<exists>new. snd (attemptAttack i tgt (ws, ps)) = ps @ new \<and> (\<forall>q\<in>set new. fresh q)"
proof (cases "snd (attemptAttack i tgt (ws, ps)) = ps")
  case True
  then show ?thesis by simp
next
  case False
  then obtain a b where "snd (attemptAttack i tgt (ws, ps)) = ps @ [Projectile a b]"
    by (auto simp: attemptAttack_def Let_def fireProjectile_def split: option.splits if_splits)
  then show ?thesis using fresh_Projectile by auto
qed

lemma Warrior_update_projectiles:
  "\<exists>new. snd (Warrior_update A dt i (ws, ps)) = ps @ new \<and> (\<forall>q\<in>set new. fresh q)"
proof (cases "alive (ws ! i)")
  case False
  then show ?thesis by (simp add: Warrior_update_def)
next
  case True
  show ?thesis
  proof (cases "findTarget i (ws[i := decay_timers dt (ws ! i)])")
    case None
    then show ?thesis using True by (simp add: Warrior_update_def Let_def)
  next
    case (Some j)
    then show ?thesis using True attemptAttack_projectiles
      by (simp add: Warrior_update_def Let_def)
  qed
qed

lemma fold_Warrior_update_projectiles:
  "\<exists>new. snd (fold (Warrior_update A dt) is wd) = snd wd @ new \<and> (\<forall>q\<in>set new. fresh q)"
proof (induction "is" arbitrary: wd)
  case Nil
  then show ?case by simp
next
  case (Cons i "is")
  obtain n1 where 1: "snd (Warrior_update A dt i wd) = snd wd @ n1" "\<forall>q\<in>set n1. fresh q"
    using Warrior_update_projectiles [of A dt i "fst wd" "snd wd"] by auto
  obtain n2 where 2: "snd (fold (Warrior_update A dt) is (Warrior_update A dt i wd))
      = snd (Warrior_update A dt i wd) @ n2" "\<forall>q\<in>set n2. fresh q"
    using Cons.IH by blast
  have "snd (fold (Warrior_update A dt) (i # is) wd) = snd wd @ (n1 @ n2)"
    using 1 2 by simp
  moreover have "\<forall>q\<in>set (n1 @ n2). fresh q" using 1 2 by auto
  ultimately show ?case by blast
qed

lemma warriors_phase_projectiles:
  "\<exists>new. snd (warriors_phase A dt (ws, ps)) = ps @ new \<and> (\<forall>q\<in>set new. fresh q)"
  using fold_Warrior_update_projectiles [of A dt _ "(ws, ps)"]
  by (simp add: warriors_phase_def)

lemma Projectile_update_fields:
  "life (fst (Projectile_update A dt p ws)) = life p + dt"
  "vx (fst (Projectile_update A dt p ws)) = vx p"
  "vy (fst (Projectile_update A dt p ws)) = vy p"
  "px (fst (Projectile_update A dt p ws)) =
     (if life p + dt < maxLife p then px p + vx p * dt else px p)"
  "py (fst (Projectile_update A dt p ws)) =
     (if life p + dt < maxLife p then py p + vy p * dt else py p)"
  by (simp_all add: Projectile_update_def Let_def split: option.split)

lemma projectiles_phase_nth_update:
  "k < length ps \<Longrightarrow>
     \<exists>ws'. fst (projectiles_phase A dt ps ws) ! k = fst (Projectile_update A dt (ps ! k) ws')"
proof (induction ps arbitrary: ws k)
  case Nil
  then show ?case by simp
next
  case (Cons p ps)
  show ?case
  proof (cases k)
    case 0
    then show ?thesis by (auto simp: Let_def)
  next
    case (Suc n)
    then have "n < length ps" using Cons.prems by simp
    from Cons.IH [OF this, of "snd (Projectile_update A dt p ws)"] show ?thesis
      using Suc by (simp add: Let_def)
  qed
qed

lemma projectiles_phase_length: "length (fst (projectiles_phase A dt ps ws)) = length ps"
  by (induction ps arbitrary: ws) (simp_all add: Let_def)

lemma clamp_id: "in_arena A w \<Longrightarrow> clampInsideArena A w = w"
  by (simp add: in_arena_def clampInsideArena_def Let_def)

lemma evolves_still:
  "evolves A dt w v \<Longrightarrow> dt = 0 \<Longrightarrow> in_arena A w \<Longrightarrow>
     wx v = wx w \<and> wy v = wy w \<and> wtype v = wtype w"
proof (induction rule: evolves.induct)
  case (ev_move w v a b)
  have i: "in_arena A v" using ev_move by (simp add: in_arena_def wconfig_def)
  have e: "clampInsideArena A (v\<lparr>wx := wx v + x * (c_speed (wconfig v) * dt),
      wy := wy v + y * (c_speed (wconfig v) * dt)\<rparr>) = v" for x y
  proof -
    have "v\<lparr>wx := wx v + x * (c_speed (wconfig v) * dt),
        wy := wy v + y * (c_speed (wconfig v) * dt)\<rparr> = v"
      using \<open>dt = 0\<close> by simp
    then show ?thesis by (simp only: clamp_id [OF i])
  qed
  show ?case by (simp only: e) (use ev_move in simp)
qed simp_all

lemma phases_length: "length (fst (phases A dt (ws, ps))) = length ws"
  using phases_evolves [of A dt ws ps] by (simp add: list_all2_conv_all_nth)

lemma phases_projectiles_prefix:
  assumes "k < length ps"
  shows "k < length (snd (phases A dt (ws, ps))) \<and>
    (\<exists>ws'. snd (phases A dt (ws, ps)) ! k = fst (Projectile_update A dt (ps ! k) ws'))"
proof -
  let ?ps1 = "snd (warriors_phase A dt (ws, ps))"
  obtain new where new: "?ps1 = ps @ new"
    using warriors_phase_projectiles by blast
  then have k1: "k < length ?ps1" and e: "?ps1 ! k = ps ! k"
    using assms by (simp_all add: nth_append)
  have p: "snd (phases A dt (ws, ps)) =
      fst (projectiles_phase A dt ?ps1 (fst (warriors_phase A dt (ws, ps))))"
    by (simp add: phases_def Let_def)
  show ?thesis
    using projectiles_phase_nth_update [OF k1] k1 e
    by (simp add: p projectiles_phase_length)
qed










lemma decay_timers_fields [simp]:
  "wtype (decay_timers dt w) = wtype w"
  "wx (decay_timers dt w) = wx w"
  "wy (decay_timers dt w) = wy w"
  "alive (decay_timers dt w) = alive w"
  "hp (decay_timers dt w) = hp w"
  by (simp_all add: decay_timers_def Let_def)




lemma steer_wtype [simp]: "wtype (steer A dt i j wd) = wtype (fst wd ! i)"
  by (simp add: steer_def Let_def)





lemma Projectile_update_young:
  assumes "life p + dt < maxLife p"
  shows "palive (fst (Projectile_update A dt p ws)) =
           (palive p \<and>
            hypot (px (flown dt p) - CENTER_x A) (py (flown dt p) - CENTER_y A) < ARENA_RADIUS A \<and>
            first_hit (flown dt p) (enumerate 0 ws) = None)"
    and "snd (Projectile_update A dt p ws) =
           (case first_hit (flown dt p) (enumerate 0 ws) of
              None \<Rightarrow> ws
            | Some j \<Rightarrow> ws[j := takeDamage (ws ! j) (damage p)])"
proof -
  have c: "first_hit (q\<lparr>life := l, px := a, py := b\<rparr>) xs = first_hit (q\<lparr>px := a, py := b\<rparr>) xs"
    "first_hit (q\<lparr>life := l, px := a, py := b, palive := f\<rparr>) xs = first_hit (q\<lparr>px := a, py := b\<rparr>) xs"
    for q l a b f xs
    by (rule first_hit_cong; simp)+
  show "palive (fst (Projectile_update A dt p ws)) =
           (palive p \<and>
            hypot (px (flown dt p) - CENTER_x A) (py (flown dt p) - CENTER_y A) < ARENA_RADIUS A \<and>
            first_hit (flown dt p) (enumerate 0 ws) = None)"
    using assms by (auto simp: Projectile_update_def Let_def flown_def c split: option.splits)
  show "snd (Projectile_update A dt p ws) =
           (case first_hit (flown dt p) (enumerate 0 ws) of
              None \<Rightarrow> ws
            | Some j \<Rightarrow> ws[j := takeDamage (ws ! j) (damage p)])"
    using assms by (auto simp: Projectile_update_def Let_def flown_def c split: option.splits)
qed

lemma Projectile_update_old:
  "maxLife p \<le> life p + dt \<Longrightarrow> \<not> palive (fst (Projectile_update A dt p ws))"
  by (simp add: Projectile_update_def)

lemma projectiles_phase_take:
  "k < length ps \<Longrightarrow>
     fst (projectiles_phase A dt ps ws) ! k =
       fst (Projectile_update A dt (ps ! k) (snd (projectiles_phase A dt (take k ps) ws))) \<and>
     snd (projectiles_phase A dt (take (Suc k) ps) ws) =
       snd (Projectile_update A dt (ps ! k) (snd (projectiles_phase A dt (take k ps) ws)))"
proof (induction ps arbitrary: ws k)
  case Nil
  then show ?case by simp
next
  case (Cons p ps)
  show ?case
  proof (cases k)
    case 0
    then show ?thesis by (simp add: Let_def)
  next
    case (Suc n)
    then have "n < length ps" using Cons.prems by simp
    from Cons.IH [OF this, of "snd (Projectile_update A dt p ws)"] show ?thesis
      using Suc by (simp add: Let_def)
  qed
qed

lemma skirmish_fired:
  "map (\<lambda>q. (px q, py q, vx q, vy q, damage q, ownerType q, radius q))
     (fired arena300 (1 / 100) (skirmish, [])) = [(- (9 / 10), 0, 260, 0, 7, Triangle, 4)]"
  by (simp add: skirmish_def Warrior_def arena300_def eval_defs warriors_phase_def fired_def)

lemma skirmish_met:
  "map (\<lambda>w. (wtype w, wx w, wy w, hp w, alive w)) (met arena300 (1 / 100) (skirmish, []) 0)
     = [(Triangle, - (9 / 10), 0, 76, True), (Circle, 12, 0, 55, True)]"
  by (simp add: skirmish_def Warrior_def arena300_def eval_defs warriors_phase_def met_def)


































lemma standoff_fired:
  "map (\<lambda>q. (px q, py q, vx q, vy q, damage q))
     (fired arena300 (1 / 10) (standoff, [])) = [(0, 0, 260, 0, 7)]"
  by (simp add: standoff_def Warrior_def arena300_def eval_defs warriors_phase_def fired_def)

lemma standoff_fired_late:
  "map (\<lambda>q. (px q, py q, vx q, vy q, damage q))
     (fired arena300 4 (standoff, [])) = [(0, 0, 260, 0, 7)]"
  by (simp add: standoff_def Warrior_def arena300_def eval_defs warriors_phase_def fired_def)








subsection \<open>Life and death\<close>

text \<open>
  C1. A warrior is alive exactly when its hp is positive: the constructor makes it so,
  \<^verbatim>\<open>takeDamage\<close> keeps it so for a damage that is not negative, and a frame keeps
  it so for every warrior of the roster.
  A dead warrior's update changes nothing, \<^verbatim>\<open>findTarget\<close> never selects a dead warrior,
  and the collision loop of a projectile never hits one.
\<close>

theorem alive_iff_hp_positive:
  "(alive w = (0 < hp w) \<and> 0 \<le> amount \<longrightarrow>
      alive (takeDamage w amount) = (0 < hp (takeDamage w amount))) \<and>
   ((\<forall>w\<in>set (warriors s). alive w = (0 < hp w)) \<longrightarrow>
      (\<forall>w\<in>set (warriors (update A t s)). alive w = (0 < hp w))) \<and>
   (\<not> alive (ws ! i) \<longrightarrow> Warrior_update A dt i (ws, ps) = (ws, ps)) \<and>
   (findTarget i' ws' = Some j \<longrightarrow> j < length ws' \<and> alive (ws' ! j)) \<and>
   (k < length ws'' \<and> \<not> alive (ws'' ! k) \<longrightarrow>
      first_hit p (enumerate 0 ws'') \<noteq> Some k \<and>
      snd (Projectile_update A dt p ws'') ! k = ws'' ! k) \<and>
   alive (Warrior ty a b h) = (0 < hp (Warrior ty a b h))"
proof (intro conjI impI)
  show "alive (Warrior ty a b h) = (0 < hp (Warrior ty a b h))"
    by (cases ty) (simp_all add: Warrior_def)
next
  assume "alive w = (0 < hp w) \<and> 0 \<le> amount"
  then show "alive (takeDamage w amount) = (0 < hp (takeDamage w amount))" by auto
next
  assume h: "\<forall>w\<in>set (warriors s). alive w = (0 < hp w)"
  show "\<forall>v\<in>set (warriors (update A t s)). alive v = (0 < hp v)"
    by (rule update_invariant [OF h]) (rule evolves_alive_hp)
next
  assume "\<not> alive (ws ! i)"
  then show "Warrior_update A dt i (ws, ps) = (ws, ps)" by (simp add: Warrior_update_def)
next
  assume "findTarget i' ws' = Some j"
  from findTarget_Some [OF this] show "j < length ws'" "alive (ws' ! j)" by simp_all
next
  assume h: "k < length ws'' \<and> \<not> alive (ws'' ! k)"
  show "first_hit p (enumerate 0 ws'') \<noteq> Some k"
    using first_hit_Some [of p 0 ws'' k] h by auto
  show "snd (Projectile_update A dt p ws'') ! k = ws'' ! k"
    using h by (intro Projectile_update_nth) simp_all
qed


text \<open>
  A fresh circle, the duel of a circle and a square, and a fallen circle, at concrete
  inputs.
\<close>

theorem alive_iff_hp_positive_witness:
  "(alive (Warrior Circle 0 0 0) = (0 < hp (Warrior Circle 0 0 0)) \<and> (0::real) \<le> 9) \<and>
   alive (takeDamage (Warrior Circle 0 0 0) 9) = (0 < hp (takeDamage (Warrior Circle 0 0 0) 9)) \<and>
   list_all (\<lambda>w. alive w = (0 < hp w)) (warriors s_duel) \<and>
   list_all (\<lambda>w. alive w = (0 < hp w)) (warriors (update arena300 16 s_duel)) \<and>
   \<not> alive ([fallen, Warrior Square 30 0 0] ! 0) \<and>
   Warrior_update arena300 (1 / 60) 0 ([fallen, Warrior Square 30 0 0], []) =
     ([fallen, Warrior Square 30 0 0], []) \<and>
   findTarget 0 (warriors s_duel) = Some 1 \<and>
   alive (warriors s_duel ! 1) \<and>
   snd (Projectile_update arena300 (1 / 60) dart [fallen]) ! 0 = fallen"
proof -
  have a: "alive (Warrior Circle 0 0 0) = (0 < hp (Warrior Circle 0 0 0)) \<and> (0::real) \<le> 9"
    by (simp add: Warrior_def)
  have b: "\<forall>w\<in>set (warriors s_duel). alive w = (0 < hp w)"
    by (simp add: s_duel_def Warrior_def)
  have c: "\<not> alive ([fallen, Warrior Square 30 0 0] ! 0)"
    by (simp add: fallen_def)
  have d: "findTarget 0 (warriors s_duel) = Some 1"
    by (simp add: s_duel_def findTarget_def Warrior_def enumerate_eq_zip upt_rec
        distanceTo_def hypot_0_right)
  have e: "0 < length [fallen] \<and> \<not> alive ([fallen] ! 0)"
    by (simp add: fallen_def)
  note T = alive_iff_hp_positive [where w = "Warrior Circle 0 0 0" and amount = 9
      and s = s_duel and A = arena300 and t = 16
      and ws = "[fallen, Warrior Square 30 0 0]" and i = 0 and dt = "1 / 60" and ps = "[]"
      and i' = 0 and ws' = "warriors s_duel" and j = 1
      and k = 0 and ws'' = "[fallen]" and p = dart]
  have f: "[fallen] ! 0 = fallen" by simp
  show ?thesis unfolding list_all_iff using T a b c d e f by metis
qed

subsection \<open>Friendly fire\<close>

text \<open>
  C2. A projectile never damages a warrior of its owner's type: the update of a projectile
  leaves every warrior of that type as it was (its hp in particular) and keeps the
  projectile's owner type, and so does a whole round of updates of projectiles of that
  owner type.
\<close>

theorem no_friendly_fire:
  "k < length ws \<Longrightarrow> wtype (ws ! k) = ownerType p \<Longrightarrow>
     hp (snd (Projectile_update A dt p ws) ! k) = hp (ws ! k) \<and>
     snd (Projectile_update A dt p ws) ! k = ws ! k \<and>
     ownerType (fst (Projectile_update A dt p ws)) = ownerType p \<and>
     ((\<forall>q\<in>set ps. ownerType q = ownerType p) \<longrightarrow>
        snd (projectiles_phase A dt ps ws) ! k = ws ! k)"
proof (intro conjI impI)
  assume k: "k < length ws" and ty: "wtype (ws ! k) = ownerType p"
  show e: "snd (Projectile_update A dt p ws) ! k = ws ! k"
    using k ty by (intro Projectile_update_nth) simp_all
  then show "hp (snd (Projectile_update A dt p ws) ! k) = hp (ws ! k)" by simp
  show "ownerType (fst (Projectile_update A dt p ws)) = ownerType p"
    by (rule Projectile_update_ownerType)
  assume "\<forall>q\<in>set ps. ownerType q = ownerType p"
  then show "snd (projectiles_phase A dt ps ws) ! k = ws ! k"
    using k ty by (intro projectiles_phase_nth) simp_all
qed

text \<open>
  A dart of a triangle inside the body of that triangle, at a concrete input.
\<close>

theorem no_friendly_fire_witness:
  "(0 < length trio \<and> wtype (trio ! 0) = ownerType dart) \<and>
   hp (snd (Projectile_update arena300 (1 / 100) dart trio) ! 0) = 85 \<and>
   list_all (\<lambda>q. ownerType q = ownerType dart) [dart, dart] \<and>
   hp (snd (projectiles_phase arena300 (1 / 100) [dart, dart] trio) ! 0) = 85"
proof -
  have a: "0 < length trio" and b: "wtype (trio ! 0) = ownerType dart"
    by (simp_all add: trio_def dart_def Projectile_def Warrior_def Let_def)
  have c: "\<forall>q\<in>set [dart, dart]. ownerType q = ownerType dart" by simp
  have d: "hp (trio ! 0) = 85" by (simp add: trio_def Warrior_def)
  show ?thesis
    unfolding list_all_iff
    using no_friendly_fire [OF a b, of arena300 "1 / 100" "[dart, dart]"] a b c d
    by metis
qed

subsection \<open>A frame that takes no time\<close>

text \<open>
  C3, as stated, fails: in a frame with \<open>dt = 0\<close> a circle and a square in reach of
  each other both strike, and in a frame with a negative \<open>dt\<close> a circle and a square
  walk away from each other.
\<close>

theorem zero_dt_is_no_op_counterexample:
  "map hp brawl = [55, 130] \<and>
   map hp (fst (step arena300 0 (brawl, []))) = [37, 121] \<and>
   map wx marching = [0, 100] \<and>
   map wx (fst (step arena300 (- (1 / 10)) (marching, []))) = [- 14, 1091 / 10]"
  by (simp add: brawl_def marching_def Warrior_def arena300_def eval_defs step_def phases_def
      warriors_phase_def)

text \<open>
  C3, amended. In a frame with \<open>dt = 0\<close> no warrior and no projectile moves and no
  projectile ages, for warriors that are within the clamp circle. Attacks and collisions
  are resolved all the same.
\<close>

theorem zero_dt_nothing_moves:
  "\<forall>w\<in>set ws. in_arena A w \<Longrightarrow>
     length (fst (phases A 0 (ws, ps))) = length ws \<and>
     (\<forall>k<length ws. wx (fst (phases A 0 (ws, ps)) ! k) = wx (ws ! k) \<and>
                     wy (fst (phases A 0 (ws, ps)) ! k) = wy (ws ! k)) \<and>
     (\<forall>k<length ps. px (snd (phases A 0 (ws, ps)) ! k) = px (ps ! k) \<and>
                     py (snd (phases A 0 (ws, ps)) ! k) = py (ps ! k) \<and>
                     life (snd (phases A 0 (ws, ps)) ! k) = life (ps ! k))"
proof (intro conjI allI impI)
  assume W: "\<forall>w\<in>set ws. in_arena A w"
  show "length (fst (phases A 0 (ws, ps))) = length ws" by (rule phases_length)
  fix k
  {
    assume k: "k < length ws"
    then have "evolves A 0 (ws ! k) (fst (phases A 0 (ws, ps)) ! k)"
      using phases_evolves [of A 0 ws ps] by (simp add: list_all2_conv_all_nth)
    moreover have "in_arena A (ws ! k)" using W k by simp
    ultimately have s: "wx (fst (phases A 0 (ws, ps)) ! k) = wx (ws ! k) \<and>
        wy (fst (phases A 0 (ws, ps)) ! k) = wy (ws ! k) \<and>
        wtype (fst (phases A 0 (ws, ps)) ! k) = wtype (ws ! k)"
      by (intro evolves_still) simp_all
    from s show "wx (fst (phases A 0 (ws, ps)) ! k) = wx (ws ! k)" by simp
    from s show "wy (fst (phases A 0 (ws, ps)) ! k) = wy (ws ! k)" by simp
  }
  {
    assume k: "k < length ps"
    from phases_projectiles_prefix [OF this, of A 0 ws]
    obtain ws' where u: "snd (phases A 0 (ws, ps)) ! k = fst (Projectile_update A 0 (ps ! k) ws')"
      by blast
    show "px (snd (phases A 0 (ws, ps)) ! k) = px (ps ! k)"
      by (simp add: u Projectile_update_fields)
    show "py (snd (phases A 0 (ws, ps)) ! k) = py (ps ! k)"
      by (simp add: u Projectile_update_fields)
    show "life (snd (phases A 0 (ws, ps)) ! k) = life (ps ! k)"
      by (simp add: u Projectile_update_fields)
  }
qed

text \<open>
  The brawl with a dart in flight, at a concrete input.
\<close>

theorem zero_dt_nothing_moves_witness:
  "list_all (in_arena arena300) brawl \<and>
   length (fst (phases arena300 0 (brawl, [dart]))) = 2 \<and>
   wx (fst (phases arena300 0 (brawl, [dart])) ! 1) = 20 \<and>
   wy (fst (phases arena300 0 (brawl, [dart])) ! 1) = 0 \<and>
   px (snd (phases arena300 0 (brawl, [dart])) ! 0) = 0 \<and>
   life (snd (phases arena300 0 (brawl, [dart])) ! 0) = 0"
proof -
  have a: "\<forall>w\<in>set brawl. in_arena arena300 w"
    by (simp add: brawl_def Warrior_def in_arena_def arena300_def hypot_0_right wconfig_def)
  have b: "length brawl = 2" "wx (brawl ! 1) = 20" "wy (brawl ! 1) = 0"
    "length [dart] = 1" "px ([dart] ! 0) = 0" "life ([dart] ! 0) = 0"
    by (simp_all add: brawl_def Warrior_def dart_def Projectile_def Let_def)
  have c: "(1::nat) < 2" "(0::nat) < 1" by simp_all
  show ?thesis unfolding list_all_iff
    using zero_dt_nothing_moves [OF a, of "[dart]"] a b c by metis
qed

subsection \<open>Projectiles fired within a frame\<close>

text \<open>
  C4, as stated, fails: the triangle of the standoff fires in the warrior round of a
  frame of a tenth of a second, and at the end of that frame its projectile is a tenth
  of a second old and 26 units away from where it was created.
\<close>

theorem new_projectile_waits_counterexample:
  "map (\<lambda>q. (life q, px q, py q)) (snd (step arena300 (1 / 10) (standoff, []))) = [(1 / 10, 26, 0)]"
  by (simp add: standoff_def Warrior_def arena300_def eval_defs step_def phases_def
      warriors_phase_def Projectile_update_def)

text \<open>
  C4, amended. A projectile that a warrior creates in the warrior round of a frame is
  created alive and with age 0, and the projectile round of the same frame updates it: it
  ends the frame with age \<open>dt\<close>. When \<open>dt\<close> is at least its maximal age of 3.5 it ends
  the frame dead. When \<open>dt\<close> is below 3.5 it is moved by its velocity times \<open>dt\<close> and
  has run both tests at its new position, against the roster as the projectiles before it
  have left it: it ends the frame alive exactly when the new position is strictly inside
  the arena circle and the loop over the roster finds no living warrior of another type
  within reach, and the first such warrior that the loop finds takes its damage within
  that frame, no other warrior being changed by it. The roster after the last projectile
  is the roster of the frame.
\<close>

theorem new_projectiles_updated_same_frame:
  "length ps \<le> k \<Longrightarrow> k < length (fired A dt (ws, ps)) \<Longrightarrow>
     k < length (snd (phases A dt (ws, ps))) \<and>
     life (fired A dt (ws, ps) ! k) = 0 \<and>
     palive (fired A dt (ws, ps) ! k) \<and>
     life (snd (phases A dt (ws, ps)) ! k) = dt \<and>
     met A dt (ws, ps) (length (fired A dt (ws, ps))) = fst (phases A dt (ws, ps)) \<and>
     (35 / 10 \<le> dt \<longrightarrow> \<not> palive (snd (phases A dt (ws, ps)) ! k)) \<and>
     (dt < 35 / 10 \<longrightarrow>
        px (snd (phases A dt (ws, ps)) ! k) = px (flown dt (fired A dt (ws, ps) ! k)) \<and>
        py (snd (phases A dt (ws, ps)) ! k) = py (flown dt (fired A dt (ws, ps) ! k)) \<and>
        palive (snd (phases A dt (ws, ps)) ! k) =
          (hypot (px (flown dt (fired A dt (ws, ps) ! k)) - CENTER_x A)
                 (py (flown dt (fired A dt (ws, ps) ! k)) - CENTER_y A) < ARENA_RADIUS A \<and>
           first_hit (flown dt (fired A dt (ws, ps) ! k))
             (enumerate 0 (met A dt (ws, ps) k)) = None) \<and>
        met A dt (ws, ps) (Suc k) =
          (case first_hit (flown dt (fired A dt (ws, ps) ! k))
                  (enumerate 0 (met A dt (ws, ps) k)) of
             None \<Rightarrow> met A dt (ws, ps) k
           | Some j \<Rightarrow> (met A dt (ws, ps) k)
                         [j := takeDamage (met A dt (ws, ps) k ! j)
                                 (damage (fired A dt (ws, ps) ! k))]))"
proof -
  assume k: "length ps \<le> k" "k < length (fired A dt (ws, ps))"
  let ?ps1 = "fired A dt (ws, ps)"
  let ?ws1 = "fst (warriors_phase A dt (ws, ps))"
  let ?q = "?ps1 ! k"
  let ?seen = "met A dt (ws, ps) k"
  obtain new where new: "?ps1 = ps @ new" "\<forall>q\<in>set new. fresh q"
    using warriors_phase_projectiles unfolding fired_def by blast
  have "?q = new ! (k - length ps)" "k - length ps < length new"
    using k new(1) by (simp_all add: nth_append)
  then have "fresh ?q" using new(2) by simp
  then have f: "life ?q = 0" "maxLife ?q = 35 / 10" "palive ?q" by (simp_all add: fresh_def)
  have e: "snd (phases A dt (ws, ps)) = fst (projectiles_phase A dt ?ps1 ?ws1)"
    and w: "fst (phases A dt (ws, ps)) = snd (projectiles_phase A dt ?ps1 ?ws1)"
    by (simp_all add: phases_def Let_def fired_def)
  have t: "snd (phases A dt (ws, ps)) ! k = fst (Projectile_update A dt ?q ?seen)"
    and s: "met A dt (ws, ps) (Suc k) = snd (Projectile_update A dt ?q ?seen)"
    using projectiles_phase_take [of k ?ps1 A dt ?ws1] k(2)
    by (simp_all add: e met_def fired_def)
  have 1: "k < length (snd (phases A dt (ws, ps)))"
    using k(2) by (simp add: e projectiles_phase_length)
  have 2: "life (snd (phases A dt (ws, ps)) ! k) = dt"
    by (simp add: t Projectile_update_fields f)
  have 3: "met A dt (ws, ps) (length ?ps1) = fst (phases A dt (ws, ps))"
    by (simp add: w met_def fired_def)
  have 4: "\<not> palive (snd (phases A dt (ws, ps)) ! k)" if "35 / 10 \<le> dt"
    unfolding t using that by (intro Projectile_update_old) (simp add: f)
  have 5: "px (snd (phases A dt (ws, ps)) ! k) = px (flown dt ?q) \<and>
        py (snd (phases A dt (ws, ps)) ! k) = py (flown dt ?q) \<and>
        palive (snd (phases A dt (ws, ps)) ! k) =
          (hypot (px (flown dt ?q) - CENTER_x A) (py (flown dt ?q) - CENTER_y A) < ARENA_RADIUS A \<and>
           first_hit (flown dt ?q) (enumerate 0 ?seen) = None) \<and>
        met A dt (ws, ps) (Suc k) =
          (case first_hit (flown dt ?q) (enumerate 0 ?seen) of
             None \<Rightarrow> ?seen
           | Some j \<Rightarrow> ?seen[j := takeDamage (?seen ! j) (damage ?q)])" if "dt < 35 / 10"
  proof -
    have y: "life ?q + dt < maxLife ?q" using that f by simp
    show ?thesis
      unfolding t s Projectile_update_young [OF y]
      using y f(3) by (simp add: Projectile_update_fields flown_def)
  qed
  show ?thesis using 1 2 3 4 5 f(1,3) by blast
qed

text \<open>
  Three frames. A triangle with a circle 12 units away, in a hundredth of a second: the
  projectile is fired, flies 2.6 units and hits the circle, which goes from 55 to 48 hit
  points within that frame. The standoff in a tenth of a second: the projectile flies 26
  units, meets nobody and lives on. The standoff in four seconds: the projectile is fired
  and dies of age in that frame.
\<close>

theorem new_projectiles_updated_same_frame_witness:
  "length ([]::projectile list) \<le> 0 \<and>
   0 < length (fired arena300 (1 / 100) (skirmish, [])) \<and>
   first_hit (flown (1 / 100) (fired arena300 (1 / 100) (skirmish, []) ! 0))
     (enumerate 0 (met arena300 (1 / 100) (skirmish, []) 0)) = Some 1 \<and>
   hp (met arena300 (1 / 100) (skirmish, []) 0 ! 1) = 55 \<and>
   life (snd (phases arena300 (1 / 100) (skirmish, [])) ! 0) = 1 / 100 \<and>
   px (snd (phases arena300 (1 / 100) (skirmish, [])) ! 0) = 17 / 10 \<and>
   \<not> palive (snd (phases arena300 (1 / 100) (skirmish, [])) ! 0) \<and>
   hp (fst (phases arena300 (1 / 100) (skirmish, [])) ! 1) = 48 \<and>
   0 < length (fired arena300 (1 / 10) (standoff, [])) \<and>
   first_hit (flown (1 / 10) (fired arena300 (1 / 10) (standoff, []) ! 0))
     (enumerate 0 (met arena300 (1 / 10) (standoff, []) 0)) = None \<and>
   px (snd (phases arena300 (1 / 10) (standoff, [])) ! 0) = 26 \<and>
   palive (snd (phases arena300 (1 / 10) (standoff, [])) ! 0) \<and>
   met arena300 (1 / 10) (standoff, []) (Suc 0) = met arena300 (1 / 10) (standoff, []) 0 \<and>
   0 < length (fired arena300 4 (standoff, [])) \<and>
   life (snd (phases arena300 4 (standoff, [])) ! 0) = 4 \<and>
   \<not> palive (snd (phases arena300 4 (standoff, [])) ! 0)"
proof -
  let ?wd = "(skirmish, []::projectile list)"
  let ?sd = "(standoff, []::projectile list)"
  have a: "length ([]::projectile list) \<le> 0" by simp
  have l: "length (fired arena300 (1 / 100) ?wd) = 1"
    using skirmish_fired by (auto simp: map_eq_Cons_conv)
  then have b: "0 < length (fired arena300 (1 / 100) ?wd)" by simp
  have c: "first_hit (flown (1 / 100) (fired arena300 (1 / 100) ?wd ! 0))
     (enumerate 0 (met arena300 (1 / 100) ?wd 0)) = Some 1"
    by (simp add: skirmish_def Warrior_def arena300_def eval_defs warriors_phase_def met_def
        fired_def flown_def)
  have d: "hp (met arena300 (1 / 100) ?wd 0 ! 1) = 55" "length (met arena300 (1 / 100) ?wd 0) = 2"
    using skirmish_met by (auto simp: map_eq_Cons_conv)
  have e: "px (flown (1 / 100) (fired arena300 (1 / 100) ?wd ! 0)) = 17 / 10"
    "damage (fired arena300 (1 / 100) ?wd ! 0) = 7"
    using skirmish_fired by (auto simp: map_eq_Cons_conv flown_def)
  have n: "(1 / 100 :: real) < 35 / 10" by simp
  note T = new_projectiles_updated_same_frame [OF a b]
  have 1: "life (snd (phases arena300 (1 / 100) ?wd) ! 0) = 1 / 100"
    and 2: "met arena300 (1 / 100) ?wd (length (fired arena300 (1 / 100) ?wd))
        = fst (phases arena300 (1 / 100) ?wd)"
    using T by blast+
  have 3: "px (snd (phases arena300 (1 / 100) ?wd) ! 0) = 17 / 10"
    and 4: "\<not> palive (snd (phases arena300 (1 / 100) ?wd) ! 0)"
    and 5: "met arena300 (1 / 100) ?wd (Suc 0) =
       (met arena300 (1 / 100) ?wd 0)[1 := takeDamage (met arena300 (1 / 100) ?wd 0 ! 1) 7]"
    using T n by (simp_all add: c e)
  have "fst (phases arena300 (1 / 100) ?wd) =
      (met arena300 (1 / 100) ?wd 0)[1 := takeDamage (met arena300 (1 / 100) ?wd 0 ! 1) 7]"
    using 2 5 by (simp add: l)
  then have "hp (fst (phases arena300 (1 / 100) ?wd) ! 1) =
      hp (takeDamage (met arena300 (1 / 100) ?wd 0 ! 1) 7)"
    using d(2) by simp
  then have 6: "hp (fst (phases arena300 (1 / 100) ?wd) ! 1) = 48"
    using d(1) by simp
  have b2: "0 < length (fired arena300 (1 / 10) ?sd)"
    using standoff_fired by (auto simp: map_eq_Cons_conv)
  have c2: "first_hit (flown (1 / 10) (fired arena300 (1 / 10) ?sd ! 0))
     (enumerate 0 (met arena300 (1 / 10) ?sd 0)) = None"
    by (simp add: standoff_def Warrior_def arena300_def eval_defs warriors_phase_def met_def
        fired_def flown_def)
  have e2: "px (flown (1 / 10) (fired arena300 (1 / 10) ?sd ! 0)) = 26"
    "py (flown (1 / 10) (fired arena300 (1 / 10) ?sd ! 0)) = 0"
    using standoff_fired by (auto simp: map_eq_Cons_conv flown_def)
  have n2: "(1 / 10 :: real) < 35 / 10" by simp
  have ins: "hypot (26 - CENTER_x arena300) (- CENTER_y arena300) < ARENA_RADIUS arena300"
    by (simp add: arena300_def hypot_0_right)
  note T2 = new_projectiles_updated_same_frame [OF a b2]
  have 7: "px (snd (phases arena300 (1 / 10) ?sd) ! 0) = 26"
    and 8: "palive (snd (phases arena300 (1 / 10) ?sd) ! 0)"
    and 9: "met arena300 (1 / 10) ?sd (Suc 0) = met arena300 (1 / 10) ?sd 0"
    using T2 n2 by (simp_all add: c2 e2 ins)
  have b3: "0 < length (fired arena300 4 ?sd)"
    using standoff_fired_late by (auto simp: map_eq_Cons_conv)
  have n3: "(35 / 10 :: real) \<le> 4" by simp
  note T3 = new_projectiles_updated_same_frame [OF a b3]
  have 10: "life (snd (phases arena300 4 ?sd) ! 0) = 4"
    and 11: "\<not> palive (snd (phases arena300 4 ?sd) ! 0)"
    using T3 n3 by blast+
  show ?thesis using a b c d(1) 1 3 4 6 b2 c2 7 8 9 b3 10 11 by (intro conjI)
qed

subsection \<open>The ranged attack and its cooldown\<close>

text \<open>
  C5, as stated, fails: a triangle whose cooldown is still running does not fire at a
  living target in range; the first test of \<^verbatim>\<open>attemptAttack\<close> holds for every type.
\<close>

theorem ranged_attack_ignores_cooldown_counterexample:
  "wtype (cooling ! 0) = Triangle \<and> alive (cooling ! 1) \<and>
   distanceTo (cooling ! 0) (cooling ! 1) \<le> c_range (wconfig (cooling ! 0)) \<and>
   0 < cooldown (cooling ! 0) \<and>
   attemptAttack 0 (Some 1) (cooling, []) = (cooling, [])"
  by (simp add: cooling_def Warrior_def attemptAttack_def distanceTo_def hypot_0_right wconfig_def)

text \<open>
  C5, amended. For a triangle with a living target within its range,
  \<^verbatim>\<open>attemptAttack\<close> does nothing while the cooldown is positive; otherwise it resets
  the cooldown and appends one projectile aimed at the target.
\<close>

theorem ranged_attack_checks_cooldown:
  "wtype (ws ! i) = Triangle \<Longrightarrow> alive (ws ! j) \<Longrightarrow>
   distanceTo (ws ! i) (ws ! j) \<le> c_range (wconfig (ws ! i)) \<Longrightarrow>
     attemptAttack i (Some j) (ws, ps) =
       (if 0 < cooldown (ws ! i) then (ws, ps)
        else (ws[i := (ws ! i)\<lparr>cooldown := c_cooldown (wconfig (ws ! i))\<rparr>],
              ps @ [Projectile (ws ! i) (ws ! j)]))"
  by (simp add: attemptAttack_def Let_def fireProjectile_def)

text \<open>
  A triangle that is ready to fire, at a concrete input.
\<close>

theorem ranged_attack_checks_cooldown_witness:
  "wtype (ready ! 0) = Triangle \<and> alive (ready ! 1) \<and>
   distanceTo (ready ! 0) (ready ! 1) \<le> c_range (wconfig (ready ! 0)) \<and>
   attemptAttack 0 (Some 1) (ready, []) =
     (ready[0 := (ready ! 0)\<lparr>cooldown := 8 / 10\<rparr>], [Projectile (ready ! 0) (ready ! 1)])"
proof -
  have a: "wtype (ready ! 0) = Triangle" and b: "alive (ready ! 1)"
    and c: "distanceTo (ready ! 0) (ready ! 1) \<le> c_range (wconfig (ready ! 0))"
    and d: "\<not> 0 < cooldown (ready ! 0)" and e: "c_cooldown (wconfig (ready ! 0)) = 8 / 10"
    by (simp_all add: ready_def Warrior_def distanceTo_def hypot_0_right wconfig_def)
  have "attemptAttack 0 (Some 1) (ready, []) =
     (ready[0 := (ready ! 0)\<lparr>cooldown := c_cooldown (wconfig (ready ! 0))\<rparr>],
      [] @ [Projectile (ready ! 0) (ready ! 1)])"
    using ranged_attack_checks_cooldown [OF a b c, of "[]"] d by (simp only: if_False)
  then show ?thesis using a b c by (simp only: e append_Nil simp_thms)
qed

subsection \<open>The ranged kiter at the edge of its band\<close>




subsection \<open>The arena boundary\<close>




subsection \<open>After the battle\<close>

text \<open>
  C8. When a frame of a running simulation ends with at most one type that has a living
  warrior, the frame stops the simulation, and every further call of \<^verbatim>\<open>update\<close>,
  alone or in sequence, returns the state as it is: the counts of the living, the status
  and the winner stay the same.
\<close>

theorem terminal_steps_are_no_ops:
  "running s \<Longrightarrow> length (livingTypes (updateStats (warriors (update A t s)))) \<le> 1 \<Longrightarrow>
     \<not> running (update A t s) \<and>
     update A t' (update A t s) = update A t s \<and>
     fold (update A) ts (update A t s) = update A t s \<and>
     updateStats (warriors (fold (update A) ts (update A t s))) =
       updateStats (warriors (update A t s)) \<and>
     statusPill (fold (update A) ts (update A t s)) = statusPill (update A t s) \<and>
     winnerType (fold (update A) ts (update A t s)) = winnerType (update A t s) \<and>
     statusPill (update A t s) =
       (case livingTypes (updateStats (warriors (update A t s))) of
          [] \<Rightarrow> All_units_eliminated | ty # _ \<Rightarrow> Dominate ty) \<and>
     winnerType (update A t s) =
       (case livingTypes (updateStats (warriors (update A t s))) of
          [] \<Rightarrow> None | ty # _ \<Rightarrow> Some ty)"
proof -
  assume r: "running s" and l: "length (livingTypes (updateStats (warriors (update A t s)))) \<le> 1"
  then have n: "\<not> running (update A t s)" by (simp add: running_update)
  have o: "statusPill (update A t s) =
       (case livingTypes (updateStats (warriors (update A t s))) of
          [] \<Rightarrow> All_units_eliminated | ty # _ \<Rightarrow> Dominate ty)"
    using l by (auto simp: outcome_update [OF r] split: list.split)
  have w: "winnerType (update A t s) =
       (case livingTypes (updateStats (warriors (update A t s))) of
          [] \<Rightarrow> None | ty # _ \<Rightarrow> Some ty)"
    using l by (auto simp: winner_update [OF r] split: list.split)
  show ?thesis using n o w by (simp add: update_not_running fold_update_not_running)
qed

text \<open>
  A lone circle wins its first frame, at a concrete input.
\<close>

theorem terminal_steps_are_no_ops_witness:
  "running lone \<and>
   length (livingTypes (updateStats (warriors (update arena300 16 lone)))) \<le> 1 \<and>
   \<not> running (update arena300 16 lone) \<and>
   update arena300 32 (update arena300 16 lone) = update arena300 16 lone \<and>
   fold (update arena300) [32, 48, 64] (update arena300 16 lone) = update arena300 16 lone \<and>
   statusPill (update arena300 16 lone) = Dominate Circle \<and>
   winnerType (update arena300 16 lone) = Some Circle"
proof -
  have c: "livingTypes (updateStats (warriors (update arena300 16 lone))) = [Circle]"
    by (simp add: lone_update updateStats_def livingTypes_def Warrior_def)
  have a: "running lone" by (simp add: lone_def)
  have b: "length (livingTypes (updateStats (warriors (update arena300 16 lone)))) \<le> 1"
    by (simp add: lone_update updateStats_def livingTypes_def Warrior_def)
  note T = terminal_steps_are_no_ops [OF a b, of 32 "[32, 48, 64]"]
  have 1: "\<not> running (update arena300 16 lone)"
    and 2: "update arena300 32 (update arena300 16 lone) = update arena300 16 lone"
    and 3: "fold (update arena300) [32, 48, 64] (update arena300 16 lone) = update arena300 16 lone"
    using T by blast+
  have 4: "statusPill (update arena300 16 lone) = Dominate Circle"
    and 5: "winnerType (update arena300 16 lone) = Some Circle"
    using T by (simp_all add: c)
  show ?thesis using a b 1 2 3 4 5 by blast
qed

subsection \<open>Hp and timers\<close>

text \<open>
  C9, as stated, fails: \<^verbatim>\<open>takeDamage\<close> does not clamp. The fourth hit of a square
  on a fresh circle leaves it with \<open>-17\<close> hp.
\<close>

theorem hp_never_negative_counterexample:
  "alive (takeDamage (takeDamage (takeDamage (Warrior Circle 0 0 0) 18) 18) 18) \<and>
   hp (takeDamage (takeDamage (takeDamage (takeDamage (Warrior Circle 0 0 0) 18) 18) 18) 18) = - 17"
  by (simp add: Warrior_def)

text \<open>
  C9, amended. \<^verbatim>\<open>takeDamage\<close> subtracts the damage from hp without a clamp.
  After a frame of a running simulation every warrior left in the roster has positive hp
  and a cooldown and a retreat timer that are not negative, whatever the time step,
  provided every warrior was alive exactly when its hp was positive and had such timers
  before, as every seeded warrior does.
\<close>

theorem roster_hp_and_timers:
  "running s \<Longrightarrow>
   \<forall>w\<in>set (warriors s). alive w = (0 < hp w) \<and> 0 \<le> cooldown w \<and> 0 \<le> wantRetreat w \<Longrightarrow>
     (\<forall>w\<in>set (warriors (update A t s)). 0 < hp w \<and> 0 \<le> cooldown w \<and> 0 \<le> wantRetreat w) \<and>
     hp (takeDamage v amount) = hp v - amount \<and>
     alive (Warrior ty a b h) = (0 < hp (Warrior ty a b h)) \<and>
     0 \<le> cooldown (Warrior ty a b h) \<and> 0 \<le> wantRetreat (Warrior ty a b h)"
proof (intro conjI)
  assume r: "running s"
    and h: "\<forall>w\<in>set (warriors s). alive w = (0 < hp w) \<and> 0 \<le> cooldown w \<and> 0 \<le> wantRetreat w"
  have 1: "\<forall>w\<in>set (warriors (update A t s)).
      alive w = (0 < hp w) \<and> 0 \<le> cooldown w \<and> 0 \<le> wantRetreat w"
    by (rule update_invariant [OF h]) (use evolves_alive_hp evolves_timers in blast)
  have 2: "\<forall>w\<in>set (warriors (update A t s)). alive w"
    using r by (simp add: warriors_update)
  show "\<forall>w\<in>set (warriors (update A t s)). 0 < hp w \<and> 0 \<le> cooldown w \<and> 0 \<le> wantRetreat w"
    using 1 2 by blast
  show "hp (takeDamage v amount) = hp v - amount" by simp
  show "alive (Warrior ty a b h) = (0 < hp (Warrior ty a b h))"
    by (cases ty) (simp_all add: Warrior_def)
  show "0 \<le> cooldown (Warrior ty a b h)" "0 \<le> wantRetreat (Warrior ty a b h)"
    by (simp_all add: Warrior_def)
qed

text \<open>
  A frame with a negative time step, at a concrete input.
\<close>

theorem roster_hp_and_timers_witness:
  "running s_duel \<and>
   list_all (\<lambda>w. alive w = (0 < hp w) \<and> 0 \<le> cooldown w \<and> 0 \<le> wantRetreat w) (warriors s_duel) \<and>
   list_all (\<lambda>w. 0 < hp w \<and> 0 \<le> cooldown w \<and> 0 \<le> wantRetreat w)
     (warriors (update arena300 (- 16) s_duel))"
proof -
  have a: "running s_duel" by (simp add: s_duel_def)
  have b: "\<forall>w\<in>set (warriors s_duel).
      alive w = (0 < hp w) \<and> 0 \<le> cooldown w \<and> 0 \<le> wantRetreat w"
    by (simp add: s_duel_def Warrior_def)
  show ?thesis unfolding list_all_iff
    using roster_hp_and_timers [OF a b, of arena300 "- 16"] a b by blast
qed

subsection \<open>A projectile that leaves the arena\<close>

text \<open>
  C10. A projectile that reaches its maximal age is marked dead and returns before it
  moves or tests a collision. One that leaves the arena circle is marked dead too but
  still runs the collision loop: it damages the first warrior that the loop finds.
\<close>

theorem boundary_exit_still_collides:
  "(maxLife p \<le> life p + dt \<longrightarrow>
      Projectile_update A dt p ws = (p\<lparr>life := life p + dt, palive := False\<rparr>, ws)) \<and>
   (life p + dt < maxLife p \<and>
    ARENA_RADIUS A \<le> hypot (px p + vx p * dt - CENTER_x A) (py p + vy p * dt - CENTER_y A) \<and>
    first_hit (p\<lparr>px := px p + vx p * dt, py := py p + vy p * dt\<rparr>) (enumerate 0 ws) = Some k \<longrightarrow>
      \<not> palive (fst (Projectile_update A dt p ws)) \<and>
      snd (Projectile_update A dt p ws) = ws[k := takeDamage (ws ! k) (damage p)] \<and>
      hp (snd (Projectile_update A dt p ws) ! k) = hp (ws ! k) - damage p)"
proof (intro conjI impI)
  assume "maxLife p \<le> life p + dt"
  then show "Projectile_update A dt p ws = (p\<lparr>life := life p + dt, palive := False\<rparr>, ws)"
    by (simp add: Projectile_update_def)
next
  assume h: "life p + dt < maxLife p \<and>
    ARENA_RADIUS A \<le> hypot (px p + vx p * dt - CENTER_x A) (py p + vy p * dt - CENTER_y A) \<and>
    first_hit (p\<lparr>px := px p + vx p * dt, py := py p + vy p * dt\<rparr>) (enumerate 0 ws) = Some k"
  let ?q = "p\<lparr>life := life p + dt, px := px p + vx p * dt, py := py p + vy p * dt, palive := False\<rparr>"
  have "first_hit ?q (enumerate 0 ws) =
      first_hit (p\<lparr>px := px p + vx p * dt, py := py p + vy p * dt\<rparr>) (enumerate 0 ws)"
    by (rule first_hit_cong) simp_all
  then have fh: "first_hit ?q (enumerate 0 ws) = Some k"
    using h by simp
  from first_hit_Some [OF fh] have k: "k < length ws" by simp
  have e: "Projectile_update A dt p ws = (?q, ws[k := takeDamage (ws ! k) (damage p)])"
    using h fh by (simp add: Projectile_update_def Let_def)
  show "\<not> palive (fst (Projectile_update A dt p ws))"
    by (simp add: e)
  show "snd (Projectile_update A dt p ws) = ws[k := takeDamage (ws ! k) (damage p)]"
    by (simp add: e)
  show "hp (snd (Projectile_update A dt p ws) ! k) = hp (ws ! k) - damage p"
    using k by (simp add: e)
qed

text \<open>
  A spent projectile, and a projectile that flies from \<open>(75, 0)\<close> to \<open>(101, 0)\<close>,
  outside the arena of radius 100, and hits the circle at \<open>(90, 0)\<close>.
\<close>

theorem boundary_exit_still_collides_witness:
  "maxLife spent \<le> life spent + 1 / 10 \<and>
   Projectile_update arena100 (1 / 10) spent [Warrior Circle 90 0 0] =
     (spent\<lparr>life := life spent + 1 / 10, palive := False\<rparr>, [Warrior Circle 90 0 0]) \<and>
   life outbound + 1 / 10 < maxLife outbound \<and>
   ARENA_RADIUS arena100 \<le> hypot (px outbound + vx outbound * (1 / 10) - CENTER_x arena100)
      (py outbound + vy outbound * (1 / 10) - CENTER_y arena100) \<and>
   first_hit (outbound\<lparr>px := px outbound + vx outbound * (1 / 10),
        py := py outbound + vy outbound * (1 / 10)\<rparr>) (enumerate 0 [Warrior Circle 90 0 0]) = Some 0 \<and>
   \<not> palive (fst (Projectile_update arena100 (1 / 10) outbound [Warrior Circle 90 0 0])) \<and>
   hp (snd (Projectile_update arena100 (1 / 10) outbound [Warrior Circle 90 0 0]) ! 0) = 48"
proof -
  have a: "maxLife spent \<le> life spent + 1 / 10" by (simp add: spent_def outbound_def)
  have b1: "life outbound + 1 / 10 < maxLife outbound" by (simp add: outbound_def)
  have b2: "ARENA_RADIUS arena100 \<le> hypot (px outbound + vx outbound * (1 / 10) - CENTER_x arena100)
      (py outbound + vy outbound * (1 / 10) - CENTER_y arena100)"
    by (simp add: outbound_def arena100_def hypot_0_right)
  have b3: "first_hit (outbound\<lparr>px := px outbound + vx outbound * (1 / 10),
        py := py outbound + vy outbound * (1 / 10)\<rparr>) (enumerate 0 [Warrior Circle 90 0 0]) = Some 0"
    by (simp add: outbound_def hypot_0_right Warrior_def wconfig_def)
  have c: "hp ([Warrior Circle 90 0 0] ! 0) - damage outbound = 48"
    by (simp add: Warrior_def outbound_def)
  note T1 = boundary_exit_still_collides [of spent "1 / 10" arena100 "[Warrior Circle 90 0 0]" 0]
  note T2 = boundary_exit_still_collides [of outbound "1 / 10" arena100 "[Warrior Circle 90 0 0]" 0]
  have d: "Projectile_update arena100 (1 / 10) spent [Warrior Circle 90 0 0] =
     (spent\<lparr>life := life spent + 1 / 10, palive := False\<rparr>, [Warrior Circle 90 0 0])"
    using T1 a by blast
  have e: "\<not> palive (fst (Projectile_update arena100 (1 / 10) outbound [Warrior Circle 90 0 0]))"
    and f: "hp (snd (Projectile_update arena100 (1 / 10) outbound [Warrior Circle 90 0 0]) ! 0) =
       hp ([Warrior Circle 90 0 0] ! 0) - damage outbound"
    using T2 b1 b2 b3 by blast+
  show ?thesis
    by (intro conjI a d b1 b2 b3 e) (simp only: f c)
qed

end
